theory Spec2Isabelle
  imports Complex_Main "HOL-Library.Sublist"
begin

section \<open>JavaScript strings\<close>

text \<open>
  A JavaScript string is a sequence of UTF-16 code units and \<open>length\<close> counts code units.
  The development covers the strings whose code units lie in the Latin-1 range
  (0 to 255), and only those: one \<^typ>\<open>char\<close> is one code unit, so \<^const>\<open>length\<close>
  agrees with \<open>String.prototype.length\<close>. On these strings \<open>toLowerCase\<close> replaces each
  upper-case letter by its lower-case letter and looks at nothing else, so it keeps the
  length and distributes over concatenation. Neither holds of other text: a capital sigma
  becomes one of two letters according to what follows it, and a dotted capital I becomes
  two code units. Every statement below that speaks of a query or of the text of a record
  is a statement about Latin-1 text.
\<close>

definition isUpperChar :: "char \<Rightarrow> bool" where
  "isUpperChar c =
     (let n = of_char c :: nat in
      (65 \<le> n \<and> n \<le> 90) \<or> (192 \<le> n \<and> n \<le> 214) \<or> (216 \<le> n \<and> n \<le> 222))"

text \<open>Adding 32 to the code of an upper-case Latin-1 letter sets its bit 5.\<close>

definition lowerChar :: "char \<Rightarrow> char" where
  "lowerChar c =
     (if isUpperChar c
      then (case c of Char b0 b1 b2 b3 b4 b5 b6 b7 \<Rightarrow> Char b0 b1 b2 b3 b4 True b6 b7)
      else c)"

definition toLowerCase :: "string \<Rightarrow> string" where
  "toLowerCase s = map lowerChar s"

text \<open>\<open>s.startsWith(t)\<close>, \<open>s.endsWith(t)\<close> and \<open>s.includes(t)\<close> (here \<open>includesStr\<close>).\<close>

fun startsWith :: "string \<Rightarrow> string \<Rightarrow> bool" where
  "startsWith s [] = True"
| "startsWith [] (c # t) = False"
| "startsWith (d # s) (c # t) = (d = c \<and> startsWith s t)"

definition endsWith :: "string \<Rightarrow> string \<Rightarrow> bool" where
  "endsWith s t = startsWith (rev s) (rev t)"

fun includesStr :: "string \<Rightarrow> string \<Rightarrow> bool" where
  "includesStr [] t = (t = [])"
| "includesStr (c # s) t = (startsWith (c # s) t \<or> includesStr s t)"

section \<open>Document identifiers\<close>

text \<open>
  \<open>isRstFile(filename)\<close>: some supported extension ends the lower-cased file name.
\<close>

definition supportedExtensions :: "string list" where
  "supportedExtensions = [''.rst'', ''.md'']"

definition isRstFile :: "string \<Rightarrow> bool" where
  "isRstFile filename = list_ex (\<lambda>ext. endsWith (toLowerCase filename) ext) supportedExtensions"

text \<open>
  \<open>generateDocumentId(relativePath)\<close> is
  \<open>relativePath.replace(/[\\\/]/g, '_').replace(/\.(rst|md)$/, '').toLowerCase()\<close>.
  The first replacement acts on every slash and backslash. The second pattern is anchored
  at the end of the input and is case sensitive; it removes at most one extension.
\<close>

definition replaceSeparators :: "string \<Rightarrow> string" where
  "replaceSeparators s = map (\<lambda>c. if c = CHR 0x5C \<or> c = CHR ''/'' then CHR ''_'' else c) s"

definition stripExtension :: "string \<Rightarrow> string" where
  "stripExtension s =
     (if endsWith s ''.rst'' then take (length s - 4) s
      else if endsWith s ''.md'' then take (length s - 3) s
      else s)"

definition generateDocumentId :: "string \<Rightarrow> string" where
  "generateDocumentId relativePath = toLowerCase (stripExtension (replaceSeparators relativePath))"


section \<open>Query preprocessing\<close>

text \<open>
  White space as \<open>\s\<close> sees it in the Latin-1 range: tab, line feed, vertical tab,
  form feed, carriage return, space and no-break space.
\<close>

definition isSpace :: "char \<Rightarrow> bool" where
  "isSpace c = (c \<in> set [CHR 0x09, CHR 0x0A, CHR 0x0B, CHR 0x0C, CHR 0x0D, CHR 0x20, CHR 0xA0])"

text \<open>
  \<open>s.split(sep)\<close> for a separator pattern that matches the maximal runs of the characters
  \<open>P\<close> (\<open>/\s+/\<close>, \<open>/[.!?]+/\<close>): the pieces between the runs, with an empty piece
  before a leading run and after a trailing one; the empty string gives one empty piece.
\<close>

function splitRuns :: "(char \<Rightarrow> bool) \<Rightarrow> string \<Rightarrow> string list" where
  "splitRuns P s =
     (let piece = takeWhile (\<lambda>c. \<not> P c) s; r = dropWhile (\<lambda>c. \<not> P c) s
      in if r = [] then [piece] else piece # splitRuns P (dropWhile P r))"
  by pat_completeness auto
termination
proof (relation "measure (\<lambda>(P, s). length s)")
  show "wf (measure (\<lambda>(P, s). length s))" by simp
next
  fix P :: "char \<Rightarrow> bool" and s piece r :: string
  assume r: "r = dropWhile (\<lambda>c. \<not> P c) s" and ne: "r \<noteq> []"
  from ne have "P (hd r)" unfolding r by (metis hd_dropWhile)
  with ne have "length (dropWhile P r) < length r"
    by (cases r) (auto simp: le_imp_less_Suc length_dropWhile_le)
  moreover have "length r \<le> length s" unfolding r by (rule length_dropWhile_le)
  ultimately show "((P, dropWhile P r), (P, s)) \<in> measure (\<lambda>(P, s). length s)" by simp
qed

declare splitRuns.simps [simp del]

text \<open>\<open>[...new Set(xs)]\<close>: the first occurrence of every element, in order.\<close>

fun uniqAcc :: "'a list \<Rightarrow> 'a list \<Rightarrow> 'a list" where
  "uniqAcc seen [] = []"
| "uniqAcc seen (x # xs) = (if x \<in> set seen then uniqAcc seen xs else x # uniqAcc (x # seen) xs)"

definition uniq :: "'a list \<Rightarrow> 'a list" where
  "uniq xs = uniqAcc [] xs"

datatype js_error = SyntaxError | TypeError | IOError

text \<open>
  The synonym dictionaries are object literals read with \<open>table[term]\<close>. Such a read also
  finds the properties every object inherits from \<open>Object.prototype\<close>; their values are truthy
  and not iterable, so \<open>push(...table[term])\<close> raises a \<open>TypeError\<close> for them.
\<close>

definition inheritedProperty :: "string \<Rightarrow> bool" where
  "inheritedProperty k = (k \<in> set [''constructor'', ''__proto__'', ''hasOwnProperty'',
     ''isPrototypeOf'', ''propertyIsEnumerable'', ''toLocaleString'', ''toString'', ''valueOf'',
     ''__defineGetter__'', ''__defineSetter__'', ''__lookupGetter__'', ''__lookupSetter__''])"

definition synonyms :: "(string \<times> string list) list" where
  "synonyms = [
    (''cong'' @ [CHR 0xE9], [''leave'', ''vacation'', ''time off'', ''absence'', ''holiday'']),
    (''leave'', [''cong'' @ [CHR 0xE9], ''vacation'', ''absence'']),
    (''projet'', [''project'', ''task'', ''tache'', ''planning'', ''workflow'']),
    (''project'', [''projet'', ''task'', ''planning'']),
    (''vente'', [''sales'', ''sell'', ''customer'', ''client'', ''commercial'']),
    (''sales'', [''vente'', ''sell'', ''customer'', ''commercial'']),
    (''achat'', [''purchase'', ''vendor'', ''supplier'', ''fournisseur'', ''procurement'']),
    (''purchase'', [''achat'', ''vendor'', ''supplier'', ''fournisseur'']),
    (''stock'', [''inventory'', ''warehouse'', ''location'', ''entrepot'']),
    (''inventory'', [''stock'', ''warehouse'', ''location'']),
    (''comptabilit'' @ [CHR 0xE9], [''accounting'', ''finance'', ''invoice'', ''facture'', ''financial'']),
    (''accounting'', [''comptabilit'' @ [CHR 0xE9], ''finance'', ''invoice'', ''facture'']),
    (''paie'', [''payroll'', ''salary'', ''salaire'', ''wage'', ''remuneration'']),
    (''payroll'', [''paie'', ''salary'', ''salaire'', ''wage'']),
    (''utilisateur'', [''user'', ''employee'', ''employ'' @ [CHR 0xE9], ''person'', ''membre'']),
    (''user'', [''utilisateur'', ''employee'', ''employ'' @ [CHR 0xE9]]),
    (''configuration'', [''config'', ''setup'', ''param'' @ [CHR 0xE8] @ ''tre'', ''setting'', ''parameter'']),
    (''setup'', [''configuration'', ''config'', ''param'' @ [CHR 0xE8] @ ''tre'']),
    (''rapport'', [''report'', ''reporting'', ''dashboard'', ''analytics'']),
    (''report'', [''rapport'', ''reporting'', ''dashboard'']),
    (''module'', [''addon'', ''app'', ''application'', ''extension'']),
    (''addon'', [''module'', ''app'', ''application'']),
    (''API'', [''api'', ''interface'', ''endpoint'', ''webservice'']),
    (''base'', [''database'', ''db'', ''donn'' @ [CHR 0xE9] @ ''e'', ''data'']),
    (''database'', [''base'', ''db'', ''donn'' @ [CHR 0xE9] @ ''e'']),
    (''vue'', [''view'', ''form'', ''tree'', ''kanban'']),
    (''view'', [''vue'', ''form'', ''tree'']),
    (''mod'' @ [CHR 0xE8] @ ''le'', [''model'', ''table'', ''record'', ''data'']),
    (''model'', [''mod'' @ [CHR 0xE8] @ ''le'', ''table'', ''record'']),
    (''champ'', [''field'', ''column'', ''attribute'', ''property'']),
    (''field'', [''champ'', ''column'', ''attribute'']),
    (''workflow'', [''flux'', ''process'', ''processus'', ''sequence'']),
    (''process'', [''workflow'', ''flux'', ''processus'']),
    (''email'', [''mail'', ''message'', ''notification'', ''courrier'']),
    (''mail'', [''email'', ''message'', ''notification'']),
    (''website'', [''site'', ''web'', ''portal'', ''ecommerce'']),
    (''portal'', [''website'', ''site'', ''web'']),
    (''manufacturing'', [''mrp'', ''production'', ''fabrication'', ''usine'']),
    (''mrp'', [''manufacturing'', ''production'', ''fabrication'']),
    (''crm'', [''customer'', ''lead'', ''opportunity'', ''prospect'']),
    (''lead'', [''crm'', ''prospect'', ''opportunity'']),
    (''partner'', [''client'', ''customer'', ''vendor'', ''contact'']),
    (''contact'', [''partner'', ''client'', ''customer'']),
    (''invoice'', [''facture'', ''bill'', ''billing'', ''facturation'']),
    (''facture'', [''invoice'', ''bill'', ''billing'']),
    (''product'', [''produit'', ''article'', ''item'', ''merchandise'']),
    (''produit'', [''product'', ''article'', ''item'']),
    (''installation'', [''install'', ''setup'', ''deployment'', ''configuration'']),
    (''install'', [''installation'', ''setup'', ''deployment'']),
    (''erreur'', [''error'', ''bug'', ''issue'', ''problem'']),
    (''error'', [''erreur'', ''bug'', ''issue'', ''problem''])]"

definition technicalVariants :: "(string \<times> string list) list" where
  "technicalVariants = [
    (''odoo'', [''erp'', ''openerp'', ''enterprise'']),
    (''xml'', [''view'', ''template'', ''qweb'']),
    (''python'', [''py'', ''script'', ''code'']),
    (''javascript'', [''js'', ''script'', ''frontend'']),
    (''postgresql'', [''postgres'', ''db'', ''database'']),
    (''css'', [''style'', ''design'', ''frontend'']),
    (''html'', [''template'', ''qweb'', ''frontend''])]"

text \<open>
  \<open>baseTerms.forEach(term => { if (table[term]) enriched.push(...table[term]) })\<close>: the
  entries pushed, in order, or the error of the first term that names an inherited property.
\<close>

fun expandTerms :: "(string \<times> string list) list \<Rightarrow> string list \<Rightarrow> js_error + string list" where
  "expandTerms table [] = Inr []"
| "expandTerms table (t # ts) =
     (case map_of table t of
        Some vs \<Rightarrow> (case expandTerms table ts of Inl e \<Rightarrow> Inl e | Inr r \<Rightarrow> Inr (vs @ r))
      | None \<Rightarrow> if inheritedProperty t then Inl TypeError else expandTerms table ts)"

definition baseTerms :: "string \<Rightarrow> string list" where
  "baseTerms query = filter (\<lambda>term. length term > 2) (splitRuns isSpace (toLowerCase query))"

definition preprocessSearchTerms :: "string \<Rightarrow> js_error + string list" where
  "preprocessSearchTerms query =
     (let base = baseTerms query in
      case expandTerms synonyms base of
        Inl e \<Rightarrow> Inl e
      | Inr syn \<Rightarrow>
          (case expandTerms technicalVariants base of
             Inl e \<Rightarrow> Inl e
           | Inr tech \<Rightarrow> Inr (uniq (base @ syn @ tech))))"

section \<open>Query classification\<close>

definition modulePatterns :: "(string \<times> string list) list" where
  "modulePatterns = [
    (''hr'', [''cong'' @ [CHR 0xE9], ''leave'', ''employee'', ''hr'', ''rh'', ''paie'', ''payroll'', ''timesheet'']),
    (''sales'', [''vente'', ''sales'', ''customer'', ''devis'', ''quote'', ''order'']),
    (''purchase'', [''achat'', ''purchase'', ''vendor'', ''supplier'', ''procurement'']),
    (''inventory'', [''stock'', ''inventory'', ''warehouse'', ''location'']),
    (''accounting'', [''comptabilit'' @ [CHR 0xE9], ''accounting'', ''facture'', ''invoice'', ''financial'']),
    (''project'', [''projet'', ''project'', ''task'', ''planning'']),
    (''manufacturing'', [''manufacturing'', ''mrp'', ''production'', ''bom'']),
    (''website'', [''website'', ''ecommerce'', ''portal'', ''web'']),
    (''crm'', [''crm'', ''lead'', ''opportunity'', ''prospect''])]"

definition actionPatterns :: "(string \<times> string list) list" where
  "actionPatterns = [
    (''configuration'', [''configuration'', ''setup'', ''config'', ''param'' @ [CHR 0xE8] @ ''tre'']),
    (''development'', [''d'' @ [CHR 0xE9] @ ''veloppement'', ''development'', ''code'', ''python'', ''xml'', ''api'']),
    (''installation'', [''installation'', ''install'', ''deployment'']),
    (''usage'', [''utilisation'', ''usage'', ''comment'', ''how to'']),
    (''troubleshooting'', [''erreur'', ''error'', ''problem'', ''bug'', ''issue'']),
    (''reporting'', [''rapport'', ''report'', ''dashboard'', ''analytics''])]"

text \<open>
  The two complexity patterns \<open>/api|python|xml|d\'eveloppement|code|custom/\<close> and
  \<open>/comment|how|pourquoi|why|what|que/\<close> are alternations of literal words: they match
  when one of the words occurs in the query.
\<close>

definition technicalWords :: "string list" where
  "technicalWords = [''api'', ''python'', ''xml'', ''d'' @ [CHR 0xE9] @ ''veloppement'', ''code'', ''custom'']"

definition beginnerWords :: "string list" where
  "beginnerWords = [''comment'', ''how'', ''pourquoi'', ''why'', ''what'', ''que'']"

definition someIncluded :: "string \<Rightarrow> string list \<Rightarrow> bool" where
  "someIncluded s keywords = list_ex (\<lambda>keyword. includesStr s keyword) keywords"

definition matchingTags :: "(string \<times> string list) list \<Rightarrow> string \<Rightarrow> string list" where
  "matchingTags patterns queryLower =
     map fst (filter (\<lambda>(tag, keywords). someIncluded queryLower keywords) patterns)"

definition detectQueryType :: "string \<Rightarrow> string list" where
  "detectQueryType query =
     (let queryLower = toLowerCase query;
          types = matchingTags modulePatterns queryLower @ matchingTags actionPatterns queryLower
                  @ (if someIncluded queryLower technicalWords then [''technical'']
                     else if someIncluded queryLower beginnerWords then [''beginner'']
                     else [])
      in if length types > 0 then types else [''general''])"

section \<open>Documents and the object store\<close>

text \<open>
  Objects live in a store and are named by their address; an object created later never
  replaces an earlier one. A document record holds its \<open>keywords\<close> array and its
  \<open>metadata\<close> object by reference. \<open>lastUpdated\<close> is the instant (milliseconds since the
  epoch) that the stored ISO string denotes, \<open>None\<close> when the property is missing or empty.
  The same record types, with the referenced values in place of the addresses, describe
  the JSON text of a snapshot.
\<close>

type_synonym addr = nat

datatype 'k meta =
    ParserMeta (metaTitle: string) (metaDescription: string) (metaKeywords: 'k)
      (metaSection: string) (metaSubsection: string) (metaFileType: string) (metaParser: string)
  | SyntheticMeta (metaSource: string) (metaType: string) (metaPriority: real)
      (metaLanguage: string) (metaCreated: int)

record ('k, 'm) doc =
  docId :: string
  filePath :: string
  fullPath :: string
  title :: string
  description :: string
  content :: string
  docSection :: string
  docSubsection :: string
  keywordsOf :: 'k
  lastUpdated :: "int option"
  wordCount :: nat
  readingTime :: nat
  fileSize :: nat
  fileType :: "string option"
  metadata :: "'m option"

record ('k, 'm) result = "('k, 'm) doc" +
  score :: real
  excerpt :: string

datatype obj =
    DocObj "(addr, addr) doc"
  | ResultObj "(addr, addr) result"
  | ArrayObj "string list"
  | MetaObj "addr meta"

type_synonym store = "obj list"

definition lookup :: "store \<Rightarrow> addr \<Rightarrow> obj option" where
  "lookup h a = (if a < length h then Some (h ! a) else None)"

definition alloc :: "store \<Rightarrow> obj \<Rightarrow> addr \<times> store" where
  "alloc h x = (length h, h @ [x])"

section \<open>Regular expressions built from search terms\<close>

text \<open>
  The scorer counts the matches of \<open>new RegExp(term, 'g')\<close> in the lower-cased content.
  Three cases are distinguished.
  \<^item> A term without any syntax character is a pattern of literal characters; the global
    match finds its occurrences from left to right, each search starting where the last
    match ended. The empty pattern matches once at every position.
  \<^item> A term made of literal characters and the quantifier characters \<open>*\<close>, \<open>+\<close>, \<open>?\<close>
    only is a sequence of atoms, each followed by at most one quantifier and an optional
    \<open>?\<close>; any other arrangement has nothing to repeat and the constructor raises a
    \<open>SyntaxError\<close>.
  \<^item> Every other term is left to the engine of the runtime, a parameter \<open>E\<close> that gives
    the error raised or the number of matches.
\<close>

definition syntaxCharacters :: "char list" where
  "syntaxCharacters = [CHR ''^'', CHR ''$'', CHR 0x5C, CHR ''.'', CHR ''*'', CHR ''+'', CHR ''?'',
     CHR ''('', CHR '')'', CHR ''['', CHR '']'', CHR ''{'', CHR ''}'', CHR ''|'']"

definition literalPattern :: "string \<Rightarrow> bool" where
  "literalPattern term = list_all (\<lambda>c. c \<notin> set syntaxCharacters) term"

definition quantifierCharacter :: "char \<Rightarrow> bool" where
  "quantifierCharacter c = (c = CHR ''*'' \<or> c = CHR ''+'' \<or> c = CHR ''?'')"

definition quantifiedLiterals :: "string \<Rightarrow> bool" where
  "quantifiedLiterals term =
     list_all (\<lambda>c. quantifierCharacter c \<or> c \<notin> set syntaxCharacters) term"

datatype scan = NeedAtom | AfterAtom | AfterQuantifier

fun quantifiersWellFormed :: "scan \<Rightarrow> string \<Rightarrow> bool" where
  "quantifiersWellFormed st [] = True"
| "quantifiersWellFormed NeedAtom (c # cs) =
     (\<not> quantifierCharacter c \<and> quantifiersWellFormed AfterAtom cs)"
| "quantifiersWellFormed AfterAtom (c # cs) =
     (if quantifierCharacter c then quantifiersWellFormed AfterQuantifier cs
      else quantifiersWellFormed AfterAtom cs)"
| "quantifiersWellFormed AfterQuantifier (c # cs) =
     (if c = CHR ''?'' then quantifiersWellFormed NeedAtom cs
      else \<not> quantifierCharacter c \<and> quantifiersWellFormed AfterAtom cs)"

function countOccurrences :: "string \<Rightarrow> string \<Rightarrow> nat" where
  "countOccurrences t s =
     (if t = [] then length s + 1
      else if s = [] then 0
      else if startsWith s t then 1 + countOccurrences t (drop (length t) s)
      else countOccurrences t (tl s))"
  by pat_completeness auto
termination
  by (relation "measure (\<lambda>(t, s). length s)") auto

declare countOccurrences.simps [simp del]

type_synonym regexp_engine = "string \<Rightarrow> string \<Rightarrow> js_error + nat"

definition regexpMatchCount :: "regexp_engine \<Rightarrow> string \<Rightarrow> string \<Rightarrow> js_error + nat" where
  "regexpMatchCount E term subject =
     (if literalPattern term then Inr (countOccurrences term subject)
      else if quantifiedLiterals term \<and> \<not> quantifiersWellFormed NeedAtom term then Inl SyntaxError
      else E term subject)"

section \<open>Adaptive scoring\<close>

record scoring_context =
  titleLower :: string
  contentLower :: string
  descLower :: string
  isHRQuery :: bool
  contextualTerms :: "string list"

text \<open>One pass of the loop over the search terms: the score of one term.\<close>

definition termScore ::
  "regexp_engine \<Rightarrow> ('k, 'm, 'z) doc_scheme \<Rightarrow> scoring_context \<Rightarrow> string \<Rightarrow> js_error + real" where
  "termScore E d ctx term =
     (case regexpMatchCount E term (contentLower ctx) of
        Inl e \<Rightarrow> Inl e
      | Inr contentMatches \<Rightarrow>
          Inr ((if includesStr (titleLower ctx) term
                then 100 + (if titleLower ctx = term then 50 else 0) else 0)
             + (if includesStr (descLower ctx) term then 40 else 0)
             + (if contentMatches > 0 then min (ln (real contentMatches + 1) * 15) 50 else 0)
             + (if includesStr (toLowerCase (docSection d)) term then 25 else 0)
             + (if docSubsection d \<noteq> [] \<and> includesStr (toLowerCase (docSubsection d)) term
                then 20 else 0)))"

fun termScores ::
  "regexp_engine \<Rightarrow> ('k, 'm, 'z) doc_scheme \<Rightarrow> scoring_context \<Rightarrow> string list \<Rightarrow> js_error + real" where
  "termScores E d ctx [] = Inr 0"
| "termScores E d ctx (term # terms) =
     (case termScore E d ctx term of
        Inl e \<Rightarrow> Inl e
      | Inr x \<Rightarrow> (case termScores E d ctx terms of Inl e \<Rightarrow> Inl e | Inr y \<Rightarrow> Inr (x + y)))"

text \<open>\<open>getTypeSpecificBonus\<close>: the \<open>switch\<close> on one tag, summed over the tags.\<close>

definition typeBonus :: "('k, 'm, 'z) doc_scheme \<Rightarrow> string \<Rightarrow> int" where
  "typeBonus d type =
     (let docSectionL = toLowerCase (docSection d); docTitle = toLowerCase (title d);
          docContent = toLowerCase (content d) in
      if type = ''hr'' then
        (if includesStr docSectionL ''hr'' \<or> includesStr docSectionL ''timesheet''
            \<or> includesStr docTitle ''employee'' \<or> includesStr docTitle ''leave''
            \<or> includesStr docTitle ''payroll'' then 150 else 0)
      else if type = ''sales'' then
        (if includesStr docSectionL ''sales'' \<or> includesStr docSectionL ''crm''
            \<or> includesStr docTitle ''customer'' \<or> includesStr docTitle ''quote'' then 120 else 0)
      else if type = ''accounting'' then
        (if includesStr docSectionL ''accounting'' \<or> includesStr docTitle ''invoice''
            \<or> includesStr docTitle ''payment'' then 120 else 0)
      else if type = ''development'' then
        (if includesStr docSectionL ''developer'' \<or> includesStr docContent ''python''
            \<or> includesStr docContent ''xml'' \<or> includesStr docContent ''api'' then 100 else 0)
      else if type = ''configuration'' then
        (if includesStr docTitle ''configuration'' \<or> includesStr docTitle ''setup''
            \<or> includesStr docContent ''setting'' then 80 else 0)
      else if type = ''beginner'' then
        (if includesStr docTitle ''introduction'' \<or> includesStr docTitle ''getting started''
            \<or> includesStr docContent ''step by step'' then 60 else 0)
        - (if includesStr docContent ''advanced'' \<or> includesStr docContent ''customize''
              \<or> includesStr docContent ''override'' then 30 else 0)
      else if type = ''technical'' then
        (if includesStr docContent ''api'' \<or> includesStr docContent ''code''
            \<or> includesStr docContent ''development'' then 80 else 0)
      else 0)"

definition getTypeSpecificBonus :: "('k, 'm, 'z) doc_scheme \<Rightarrow> string list \<Rightarrow> string \<Rightarrow> int" where
  "getTypeSpecificBonus d queryType originalQuery = sum_list (map (typeBonus d) queryType)"

text \<open>
  \<open>applyQualityAdjustments\<close>. \<open>now\<close> is the value of \<open>Date.now()\<close>; a month is thirty days
  of milliseconds.
\<close>

definition applyQualityAdjustments ::
  "int \<Rightarrow> ('k, 'm, 'z) doc_scheme \<Rightarrow> string \<Rightarrow> string list \<Rightarrow> int" where
  "applyQualityAdjustments now d originalQuery queryType =
     (let docContent = toLowerCase (content d); docTitle = toLowerCase (title d) in
        (if wordCount d > 500 then 10 else 0)
      + (if wordCount d > 1000 then 10 else 0)
      + (case lastUpdated d of
           None \<Rightarrow> 0
         | Some t \<Rightarrow>
             (let monthsOld = real_of_int (now - t) / (1000 * 60 * 60 * 24 * 30) in
              if monthsOld < 6 then 15 else if monthsOld < 12 then 5 else 0))
      + (if ''technical'' \<notin> set queryType \<and> ''development'' \<notin> set queryType
            \<and> (includesStr docContent ''class '' \<or> includesStr docContent ''def ''
                 \<or> includesStr docContent ''import '' \<or> includesStr docContent ''from '')
         then - 40 else 0)
      + (if list_ex (\<lambda>s. includesStr (docSection d) s) [''user'', ''administration'', ''applications'']
         then 15 else 0)
      + (if wordCount d < 100 then - 20 else 0)
      + (if length docTitle > 10 \<and> length docTitle < 100 then 5 else 0))"

definition contextualBonus :: "scoring_context \<Rightarrow> int" where
  "contextualBonus ctx =
     30 * int (length (filter (\<lambda>term. includesStr (titleLower ctx) (toLowerCase term)
                                  \<or> includesStr (contentLower ctx) (toLowerCase term))
                         (contextualTerms ctx)))"

definition calculateAdaptiveScore ::
  "regexp_engine \<Rightarrow> int \<Rightarrow> ('k, 'm, 'z) doc_scheme \<Rightarrow> string list \<Rightarrow> string \<Rightarrow> string list
     \<Rightarrow> scoring_context \<Rightarrow> js_error + real" where
  "calculateAdaptiveScore E now d searchTerms originalQuery queryType ctx =
     (case termScores E d ctx searchTerms of
        Inl e \<Rightarrow> Inl e
      | Inr base \<Rightarrow>
          (let score = base
                 + (if includesStr (contentLower ctx) (toLowerCase originalQuery) then 80 else 0)
                 + real_of_int (getTypeSpecificBonus d queryType originalQuery)
                 + real_of_int (contextualBonus ctx)
                 + real_of_int (applyQualityAdjustments now d originalQuery queryType)
           in Inr (max 0 (min score 1000))))"

section \<open>The service and its search\<close>

record metrics =
  totalFiles :: nat
  processedFiles :: nat
  failedFiles :: nat
  totalBytesProcessed :: nat
  averageProcessingTime :: nat
  startTime :: int

record service =
  heap :: store
  documentationIndex :: "(string \<times> addr) list"
  lastUpdate :: "int option"
  serviceMetrics :: metrics
  version :: string
  warnings :: "string list"

text \<open>
  The \<open>options\<close> argument; \<open>None\<close> is a property left out. \<open>limit\<close> defaults to 20,
  \<open>minScore\<close> to 0, \<open>includeMetadata\<close> to true, \<open>contextualTerms\<close> to the empty list, and
  a \<open>section\<close> that is missing or empty does not filter.
\<close>

record options =
  optLimit :: "int option"
  optSection :: "string option"
  optMinScore :: "real option"
  optIncludeMetadata :: "bool option"
  optContextualTerms :: "string list option"

record search_output =
  results :: "addr list"
  sourcesSummary :: "string list"

definition trim :: "string \<Rightarrow> string" where
  "trim s = rev (dropWhile isSpace (rev (dropWhile isSpace s)))"

definition sentenceEnd :: "char \<Rightarrow> bool" where
  "sentenceEnd c = (c = CHR ''.'' \<or> c = CHR ''!'' \<or> c = CHR ''?'')"

definition sentenceScore :: "string list \<Rightarrow> string \<Rightarrow> nat" where
  "sentenceScore searchTerms sentence =
     sum_list (map length (filter (\<lambda>term. includesStr (toLowerCase sentence) term) searchTerms))"

text \<open>The loop that keeps the first sentence of the highest score.\<close>

fun bestSentence :: "string list \<Rightarrow> string list \<Rightarrow> string \<times> nat \<Rightarrow> string \<times> nat" where
  "bestSentence searchTerms [] best = best"
| "bestSentence searchTerms (sentence # rest) (bestS, bestScore) =
     (if sentenceScore searchTerms sentence > bestScore
      then bestSentence searchTerms rest (sentence, sentenceScore searchTerms sentence)
      else bestSentence searchTerms rest (bestS, bestScore))"

definition extractRelevantExcerpt :: "string \<Rightarrow> string list \<Rightarrow> string" where
  "extractRelevantExcerpt text searchTerms =
     (let sentences = filter (\<lambda>s. length (trim s) > 20) (splitRuns sentenceEnd text);
          (best, bestScore) = bestSentence searchTerms sentences ([], 0)
      in if best \<noteq> [] \<and> bestScore > 0 then take 300 (trim best) @ ''...''
         else take 200 text @ ''...'')"

definition scoringContext :: "('k, 'm, 'z) doc_scheme \<Rightarrow> string list \<Rightarrow> options \<Rightarrow> scoring_context" where
  "scoringContext d queryType opts =
     \<lparr> titleLower = toLowerCase (title d),
       contentLower = toLowerCase (content d),
       descLower = toLowerCase (description d),
       isHRQuery = (''hr'' \<in> set queryType),
       contextualTerms = (case optContextualTerms opts of None \<Rightarrow> [] | Some ts \<Rightarrow> ts) \<rparr>"

definition sectionExcluded :: "options \<Rightarrow> string \<Rightarrow> bool" where
  "sectionExcluded opts s =
     (case optSection opts of None \<Rightarrow> False | Some wanted \<Rightarrow> wanted \<noteq> [] \<and> s \<noteq> wanted)"

definition minScoreOf :: "options \<Rightarrow> real" where
  "minScoreOf opts = (case optMinScore opts of None \<Rightarrow> 0 | Some m \<Rightarrow> m)"

text \<open>
  \<open>{...doc, score, excerpt}\<close>: a new object with the properties of the record, the keywords
  array and the metadata object still shared with it. The later assignment of
  \<open>doc.metadata\<close> stores the reference the copy already holds.
\<close>

definition makeResult :: "(addr, addr) doc \<Rightarrow> real \<Rightarrow> string \<Rightarrow> options \<Rightarrow> (addr, addr) result" where
  "makeResult d sc ex opts =
     (let r = doc.extend d (result.fields sc ex)
      in if (case optIncludeMetadata opts of None \<Rightarrow> True | Some b \<Rightarrow> b) \<and> metadata d \<noteq> None
         then r\<lparr>metadata := metadata d\<rparr> else r)"

text \<open>
  The loop over the index. An entry that does not lead to a document record makes the
  read of its title fail. The first error ends the loop; the result objects created
  before it stay in the store.
\<close>

fun searchLoop ::
  "regexp_engine \<Rightarrow> int \<Rightarrow> options \<Rightarrow> string list \<Rightarrow> string \<Rightarrow> string list
     \<Rightarrow> (string \<times> addr) list \<Rightarrow> store \<Rightarrow> (addr \<times> (addr, addr) result) list
     \<Rightarrow> (js_error + (addr \<times> (addr, addr) result) list) \<times> store" where
  "searchLoop E now opts searchTerms query queryType [] h found = (Inr found, h)"
| "searchLoop E now opts searchTerms query queryType ((i, a) # rest) h found =
     (case lookup h a of
        Some (DocObj d) \<Rightarrow>
          if sectionExcluded opts (docSection d)
          then searchLoop E now opts searchTerms query queryType rest h found
          else (case calculateAdaptiveScore E now d searchTerms query queryType
                       (scoringContext d queryType opts) of
                  Inl e \<Rightarrow> (Inl e, h)
                | Inr sc \<Rightarrow>
                    if sc \<ge> minScoreOf opts
                    then (let r = makeResult d sc (extractRelevantExcerpt (content d) searchTerms) opts;
                              (ra, h') = alloc h (ResultObj r)
                          in searchLoop E now opts searchTerms query queryType rest h'
                               (found @ [(ra, r)]))
                    else searchLoop E now opts searchTerms query queryType rest h found)
      | _ \<Rightarrow> (Inl TypeError, h))"

text \<open>\<open>s.replace(pattern, replacement)\<close> for a string pattern: the first occurrence only.\<close>

fun replaceFirst :: "string \<Rightarrow> string \<Rightarrow> string \<Rightarrow> string" where
  "replaceFirst pat rep [] = (if pat = [] then rep else [])"
| "replaceFirst pat rep (c # s) =
     (if startsWith (c # s) pat then rep @ drop (length pat) (c # s)
      else c # replaceFirst pat rep s)"

definition sourceSummary :: "string \<Rightarrow> string" where
  "sourceSummary s =
     ''Ces informations proviennent de la documentation ''
       @ replaceFirst ''_'' '' '' (replaceFirst ''/developer/'' [] (replaceFirst ''/applications/'' [] s))"

text \<open>\<open>xs.slice(0, end)\<close>: a negative \<open>end\<close> counts from the end of the array.\<close>

definition sliceTo :: "'a list \<Rightarrow> int \<Rightarrow> 'a list" where
  "sliceTo xs e = (if e < 0 then take (nat (int (length xs) + e)) xs else take (nat e) xs)"

definition searchDocumentation ::
  "regexp_engine \<Rightarrow> int \<Rightarrow> service \<Rightarrow> string \<Rightarrow> options \<Rightarrow> (js_error + search_output) \<times> service" where
  "searchDocumentation E now srv query opts =
     (case preprocessSearchTerms query of
        Inl e \<Rightarrow> (Inl e, srv)
      | Inr searchTerms \<Rightarrow>
          (let queryType = detectQueryType query in
           case searchLoop E now opts searchTerms query queryType (documentationIndex srv) (heap srv) [] of
             (Inl e, h) \<Rightarrow> (Inl e, srv\<lparr>heap := h\<rparr>)
           | (Inr found, h) \<Rightarrow>
               (let sorted = sort_key (\<lambda>(a, r). - score r) found;
                    qualityResults = filter (\<lambda>(a, r). score r > 10) sorted;
                    summary = map sourceSummary (uniq (map (\<lambda>(a, r). docSection r) qualityResults))
                in (Inr \<lparr> results = map fst (sliceTo qualityResults
                                                (case optLimit opts of None \<Rightarrow> 20 | Some l \<Rightarrow> l)),
                          sourcesSummary = summary \<rparr>,
                    srv\<lparr>heap := h\<rparr>))))"

text \<open>
  \<open>getStats\<close>: the number of documents of every section. \<open>statSections\<close> is the \<open>Map\<close>
  that the loop fills, its entries in order of first appearance; the object that
  \<open>Object.fromEntries\<close> makes of it has these entries as its properties, and enumerates
  those named by an array index first. Nothing below depends on the order.
\<close>

record stats =
  statTotalDocuments :: nat
  statLastUpdate :: "int option"
  statSections :: "(string \<times> nat) list"
  statVersion :: string
  statSource :: string
  statMetrics :: metrics

fun countSection :: "string \<Rightarrow> (string \<times> nat) list \<Rightarrow> (string \<times> nat) list" where
  "countSection s [] = [(s, 1)]"
| "countSection s ((k, n) # rest) = (if k = s then (k, n + 1) # rest else (k, n) # countSection s rest)"

definition sectionOfEntry :: "store \<Rightarrow> addr \<Rightarrow> js_error + string" where
  "sectionOfEntry h a = (case lookup h a of Some (DocObj d) \<Rightarrow> Inr (docSection d) | _ \<Rightarrow> Inl TypeError)"

fun countSections :: "store \<Rightarrow> (string \<times> addr) list \<Rightarrow> (string \<times> nat) list \<Rightarrow> js_error + (string \<times> nat) list" where
  "countSections h [] acc = Inr acc"
| "countSections h ((i, a) # rest) acc =
     (case sectionOfEntry h a of Inl e \<Rightarrow> Inl e | Inr s \<Rightarrow> countSections h rest (countSection s acc))"

definition getStats :: "service \<Rightarrow> js_error + stats" where
  "getStats srv =
     (case countSections (heap srv) (documentationIndex srv) [] of
        Inl e \<Rightarrow> Inl e
      | Inr sections \<Rightarrow>
          Inr \<lparr> statTotalDocuments = length (documentationIndex srv),
                statLastUpdate = lastUpdate srv,
                statSections = sections,
                statVersion = version srv,
                statSource = ''GitHub'',
                statMetrics = serviceMetrics srv \<rparr>)"

section \<open>Indexing the corpus\<close>

text \<open>
  The text functions of the parser (\<open>extractRstMetadata\<close>, \<open>extractMarkdownMetadata\<close>,
  \<open>cleanRstContent\<close>, \<open>cleanMarkdownContent\<close>) build strings from strings with pattern
  replacements and raise nothing. They are parameters here, with the file system:
  \<open>readFile\<close> gives the text of a file, or \<open>None\<close> when the read fails.
\<close>

record parsed_metadata =
  pmTitle :: string
  pmDescription :: string
  pmKeywords :: "string list"
  pmSection :: string
  pmSubsection :: string

record environment =
  githubDocPath :: string
  readFile :: "string \<Rightarrow> string option"
  extractRstMetadata :: "string \<Rightarrow> string \<Rightarrow> parsed_metadata"
  extractMarkdownMetadata :: "string \<Rightarrow> string \<Rightarrow> parsed_metadata"
  cleanRstContent :: "string \<Rightarrow> string"
  cleanMarkdownContent :: "string \<Rightarrow> string"

text \<open>
  \<open>path.extname\<close>: from the last dot of the last path segment, unless that dot starts it.
  Slashes at the end of the path are passed over before the last segment is read.
\<close>

definition basename :: "string \<Rightarrow> string" where
  "basename p =
     rev (takeWhile (\<lambda>c. c \<noteq> CHR ''/'') (dropWhile (\<lambda>c. c = CHR ''/'') (rev p)))"

definition extname :: "string \<Rightarrow> string" where
  "extname p =
     (let b = basename p; after = takeWhile (\<lambda>c. c \<noteq> CHR ''.'') (rev b)
      in if length after = length b \<or> length after + 1 = length b \<or> b = ''..'' then []
         else CHR ''.'' # rev after)"

text \<open>\<open>Map.prototype.set\<close>: a known key keeps its place and takes the new value.\<close>

fun mapSet :: "'a \<Rightarrow> 'b \<Rightarrow> ('a \<times> 'b) list \<Rightarrow> ('a \<times> 'b) list" where
  "mapSet k v [] = [(k, v)]"
| "mapSet k v ((k', v') # rest) = (if k' = k then (k, v) # rest else (k', v') # mapSet k v rest)"

text \<open>
  The body of \<open>processRstFile\<close> inside its \<open>try\<close>: the error of a failed read, or no
  document for a short text, or the new document object with its address. The files of
  the scanner are given by their paths relative to the corpus root.
\<close>

definition processRstFileBody ::
  "environment \<Rightarrow> int \<Rightarrow> service \<Rightarrow> string
     \<Rightarrow> js_error + ((addr \<times> (addr, addr) doc) option \<times> service)" where
  "processRstFileBody env now srv relativePath =
     (let path = githubDocPath env @ ''/'' @ relativePath in
      case readFile env path of
        None \<Rightarrow> Inl IOError
      | Some text \<Rightarrow>
          (let fileExtension = toLowerCase (extname path);
               md = (if fileExtension = ''.md'' then extractMarkdownMetadata env text relativePath
                     else extractRstMetadata env text relativePath);
               cleanContent = (if fileExtension = ''.md'' then cleanMarkdownContent env text
                               else cleanRstContent env text)
           in if length cleanContent < 100 then Inr (None, srv)
              else
                (let (ka, h1) = alloc (heap srv) (ArrayObj (pmKeywords md));
                     (ma, h2) = alloc h1 (MetaObj (ParserMeta (pmTitle md) (pmDescription md) ka
                                   (pmSection md) (pmSubsection md) fileExtension
                                   (if fileExtension = ''.md'' then ''markdown'' else ''rst'')));
                     words = length (splitRuns isSpace cleanContent);
                     d = \<lparr> docId = generateDocumentId relativePath,
                           filePath = relativePath,
                           fullPath = path,
                           title = pmTitle md,
                           description = pmDescription md,
                           content = cleanContent,
                           docSection = pmSection md,
                           docSubsection = pmSubsection md,
                           keywordsOf = ka,
                           lastUpdated = Some now,
                           wordCount = words,
                           readingTime = (words + 199) div 200,
                           fileSize = length text,
                           fileType = Some fileExtension,
                           metadata = Some ma \<rparr>;
                     (da, h3) = alloc h2 (DocObj d);
                     m = serviceMetrics srv
                 in Inr (Some (da, d),
                         srv\<lparr> heap := h3,
                              serviceMetrics := m\<lparr> processedFiles := processedFiles m + 1,
                                 totalBytesProcessed := totalBytesProcessed m + length text \<rparr> \<rparr>))))"

text \<open>\<open>processRstFile\<close>: its \<open>catch\<close> warns about the file and returns no document.\<close>

definition processRstFile ::
  "environment \<Rightarrow> int \<Rightarrow> service \<Rightarrow> string
     \<Rightarrow> js_error + ((addr \<times> (addr, addr) doc) option \<times> service)" where
  "processRstFile env now srv relativePath =
     (case processRstFileBody env now srv relativePath of
        Inl e \<Rightarrow> Inr (None, srv\<lparr> warnings := warnings srv @ [githubDocPath env @ ''/'' @ relativePath] \<rparr>)
      | Inr r \<Rightarrow> Inr r)"

section \<open>The snapshot files\<close>

type_synonym json_doc = "(string list, string list meta) doc"

record snapshot =
  snapVersion :: string
  snapOdooVersion :: string
  snapSource :: string
  snapLastUpdate :: "int option"
  snapTotalDocuments :: nat
  snapDocuments :: "(string \<times> json_doc) list"

datatype index_file = Unparseable | Snapshot snapshot

record cache_metadata =
  createdAt :: int
  metaStats :: stats
  metaMetrics :: metrics
  metaGithubPath :: string

text \<open>
  The cache directory: the two files when they exist, and whether a write of each
  succeeds.
\<close>

record cache =
  indexFile :: "index_file option"
  metadataFile :: "cache_metadata option"
  indexWritable :: bool
  metadataWritable :: bool

text \<open>
  \<open>JSON.stringify\<close> follows the references of a record: the text holds the keywords and
  the metadata themselves. An address that does not hold an object of the expected kind
  is the failure case of the serialisation.
\<close>

definition arrayAt :: "store \<Rightarrow> addr \<Rightarrow> string list option" where
  "arrayAt h a = (case lookup h a of Some (ArrayObj xs) \<Rightarrow> Some xs | _ \<Rightarrow> None)"

definition metaToJson :: "store \<Rightarrow> addr meta \<Rightarrow> string list meta option" where
  "metaToJson h m =
     (case m of
        ParserMeta t d k s ss ft p \<Rightarrow>
          (case arrayAt h k of None \<Rightarrow> None | Some ks \<Rightarrow> Some (ParserMeta t d ks s ss ft p))
      | SyntheticMeta src ty pr lang cr \<Rightarrow> Some (SyntheticMeta src ty pr lang cr))"

definition metaAt :: "store \<Rightarrow> addr \<Rightarrow> string list meta option" where
  "metaAt h a = (case lookup h a of Some (MetaObj m) \<Rightarrow> metaToJson h m | _ \<Rightarrow> None)"

definition withReferences :: "('a, 'b, 'z) doc_scheme \<Rightarrow> 'k \<Rightarrow> 'm option \<Rightarrow> ('k, 'm) doc" where
  "withReferences d k m =
     \<lparr> docId = docId d, filePath = filePath d, fullPath = fullPath d, title = title d,
       description = description d, content = content d, docSection = docSection d,
       docSubsection = docSubsection d, keywordsOf = k, lastUpdated = lastUpdated d,
       wordCount = wordCount d, readingTime = readingTime d, fileSize = fileSize d,
       fileType = fileType d, metadata = m \<rparr>"

definition docToJson :: "store \<Rightarrow> (addr, addr) doc \<Rightarrow> json_doc option" where
  "docToJson h d =
     (case arrayAt h (keywordsOf d) of
        None \<Rightarrow> None
      | Some ks \<Rightarrow>
          (case metadata d of
             None \<Rightarrow> Some (withReferences d ks None)
           | Some ma \<Rightarrow>
               (case metaAt h ma of None \<Rightarrow> None | Some m \<Rightarrow> Some (withReferences d ks (Some m)))))"

definition docAt :: "store \<Rightarrow> addr \<Rightarrow> json_doc option" where
  "docAt h a = (case lookup h a of Some (DocObj d) \<Rightarrow> docToJson h d | _ \<Rightarrow> None)"

fun entriesToJson :: "store \<Rightarrow> (string \<times> addr) list \<Rightarrow> (string \<times> json_doc) list option" where
  "entriesToJson h [] = Some []"
| "entriesToJson h ((i, a) # rest) =
     (case docAt h a of
        None \<Rightarrow> None
      | Some d \<Rightarrow> (case entriesToJson h rest of None \<Rightarrow> None | Some ds \<Rightarrow> Some ((i, d) # ds)))"

text \<open>
  \<open>saveIndexToCache\<close>. Both objects are built before the first write; a failure anywhere
  inside the \<open>try\<close> is logged and ends the function, so a failed write of the index file
  also leaves the metadata file as it was.
\<close>

definition saveIndexToCache :: "environment \<Rightarrow> int \<Rightarrow> service \<Rightarrow> cache \<Rightarrow> cache" where
  "saveIndexToCache env now srv c =
     (case entriesToJson (heap srv) (documentationIndex srv) of
        None \<Rightarrow> c
      | Some docs \<Rightarrow>
          (case getStats srv of
             Inl e \<Rightarrow> c
           | Inr st \<Rightarrow>
               (let indexData = \<lparr> snapVersion = ''4.0'', snapOdooVersion = version srv,
                                   snapSource = ''GitHub'', snapLastUpdate = lastUpdate srv,
                                   snapTotalDocuments = length (documentationIndex srv),
                                   snapDocuments = docs \<rparr>;
                    md = \<lparr> createdAt = now, metaStats = st, metaMetrics = serviceMetrics srv,
                            metaGithubPath = githubDocPath env \<rparr>
                in if \<not> indexWritable c then c
                   else if \<not> metadataWritable c then c\<lparr> indexFile := Some (Snapshot indexData) \<rparr>
                   else c\<lparr> indexFile := Some (Snapshot indexData), metadataFile := Some md \<rparr>)))"

text \<open>\<open>JSON.parse\<close> creates new objects for a record, its keywords and its metadata.\<close>

definition allocMeta :: "store \<Rightarrow> string list meta \<Rightarrow> addr \<times> store" where
  "allocMeta h m =
     (case m of
        ParserMeta t d ks s ss ft p \<Rightarrow>
          (let (ka, h1) = alloc h (ArrayObj ks) in alloc h1 (MetaObj (ParserMeta t d ka s ss ft p)))
      | SyntheticMeta src ty pr lang cr \<Rightarrow> alloc h (MetaObj (SyntheticMeta src ty pr lang cr)))"

definition allocDoc :: "store \<Rightarrow> json_doc \<Rightarrow> addr \<times> store" where
  "allocDoc h d =
     (let (ka, h1) = alloc h (ArrayObj (keywordsOf d));
          (mo, h2) = (case metadata d of
                        None \<Rightarrow> (None, h1)
                      | Some m \<Rightarrow> (let (ma, h') = allocMeta h1 m in (Some ma, h')))
      in alloc h2 (DocObj (withReferences d ka mo)))"

fun allocEntries :: "store \<Rightarrow> (string \<times> json_doc) list \<Rightarrow> (string \<times> addr) list \<times> store" where
  "allocEntries h [] = ([], h)"
| "allocEntries h ((i, d) # rest) =
     (let (a, h1) = allocDoc h d; (es, h2) = allocEntries h1 rest in ((i, a) # es, h2))"

definition newMap :: "('a \<times> 'b) list \<Rightarrow> ('a \<times> 'b) list" where
  "newMap entries = foldl (\<lambda>m (k, v). mapSet k v m) [] entries"

text \<open>
  \<open>loadIndexFromCache\<close>. A missing or unparseable index file empties the index; a
  snapshot of another version or source leaves the service as it is.
\<close>

definition loadIndexFromCache :: "service \<Rightarrow> cache \<Rightarrow> service" where
  "loadIndexFromCache srv c =
     (case indexFile c of
        None \<Rightarrow> srv\<lparr> documentationIndex := [] \<rparr>
      | Some Unparseable \<Rightarrow> srv\<lparr> documentationIndex := [] \<rparr>
      | Some (Snapshot indexData) \<Rightarrow>
          if snapVersion indexData \<noteq> ''4.0'' \<or> snapSource indexData \<noteq> ''GitHub'' then srv
          else (let (es, h) = allocEntries (heap srv) (snapDocuments indexData)
                in srv\<lparr> lastUpdate := snapLastUpdate indexData, heap := h,
                        documentationIndex := newMap es \<rparr>))"

text \<open>A new instance of the service, before any cache is loaded.\<close>

definition newService :: "string \<Rightarrow> int \<Rightarrow> service" where
  "newService v now =
     \<lparr> heap = [], documentationIndex = [], lastUpdate = None,
       serviceMetrics = \<lparr> totalFiles = 0, processedFiles = 0, failedFiles = 0,
          totalBytesProcessed = 0, averageProcessingTime = 0, startTime = now \<rparr>,
       version = v, warnings = [] \<rparr>"

text \<open>
  The loop of \<open>indexGitHubDocumentation\<close> over the scanned files, with the count of
  documents indexed so far: every fiftieth document triggers a save. The \<open>catch\<close> around
  the body of the loop counts a failed file.
\<close>

fun indexLoop ::
  "environment \<Rightarrow> int \<Rightarrow> string list \<Rightarrow> nat \<Rightarrow> service \<Rightarrow> cache \<Rightarrow> service \<times> cache" where
  "indexLoop env now [] processedCount srv c = (srv, c)"
| "indexLoop env now (file # files) processedCount srv c =
     (case processRstFile env now srv file of
        Inl e \<Rightarrow>
          indexLoop env now files processedCount
            (srv\<lparr> serviceMetrics := (serviceMetrics srv)\<lparr> failedFiles := failedFiles (serviceMetrics srv) + 1 \<rparr> \<rparr>) c
      | Inr (None, srv1) \<Rightarrow> indexLoop env now files processedCount srv1 c
      | Inr (Some (a, d), srv1) \<Rightarrow>
          (let srv2 = srv1\<lparr> documentationIndex := mapSet (docId d) a (documentationIndex srv1) \<rparr>;
               n = processedCount + 1;
               c' = (if n mod 50 = 0 then saveIndexToCache env now srv2 c else c)
           in indexLoop env now files n srv2 c'))"

definition indexGitHubDocumentation ::
  "environment \<Rightarrow> int \<Rightarrow> string list \<Rightarrow> service \<Rightarrow> cache \<Rightarrow> service \<times> cache" where
  "indexGitHubDocumentation env now allFiles srv c =
     (let (srv1, c1) = indexLoop env now allFiles 0 srv c;
          c2 = saveIndexToCache env now srv1 c1
      in (srv1\<lparr> lastUpdate := Some now \<rparr>, c2))"

section \<open>Synthetic documents\<close>

text \<open>
  The three hand-written documents of \<open>generateSyntheticDocuments\<close>. Their long content
  texts, which use characters outside Latin-1, are the parameters \<open>c1\<close>, \<open>c2\<close>, \<open>c3\<close>.
\<close>

record faq =
  faqId :: string
  faqTitle :: string
  faqSection :: string
  faqSubsection :: string
  faqContent :: string
  faqKeywords :: "string list"
  faqWordCount :: nat
  faqDescription :: string

definition faqData :: "string \<Rightarrow> string \<Rightarrow> string \<Rightarrow> faq list" where
  "faqData c1 c2 c3 = [
     \<lparr> faqId = ''faq_hr_leave_config'',
       faqTitle = ''Configuration des cong'' @ [CHR 0xE9] @ ''s - Guide complet'',
       faqSection = ''hr'', faqSubsection = ''timesheet'', faqContent = c1,
       faqKeywords = [''cong'' @ [CHR 0xE9] @ ''s'', ''leave'', ''hr'', ''timesheet'', ''vacation'', ''absence''],
       faqWordCount = 2500,
       faqDescription = ''Guide complet pour configurer et utiliser le syst'' @ [CHR 0xE8]
          @ ''me de cong'' @ [CHR 0xE9] @ ''s dans Odoo v17'' \<rparr>,
     \<lparr> faqId = ''faq_sales_workflow'',
       faqTitle = ''Workflow de vente Odoo - Du prospect '' @ [CHR 0xE0] @ '' la facture'',
       faqSection = ''sales'', faqSubsection = ''crm'', faqContent = c2,
       faqKeywords = [''sales'', ''vente'', ''crm'', ''devis'', ''commande'', ''facture'', ''prospect''],
       faqWordCount = 2200,
       faqDescription = ''Workflow complet du processus de vente dans Odoo v17'' \<rparr>,
     \<lparr> faqId = ''faq_module_development'',
       faqTitle = ''D'' @ [CHR 0xE9] @ ''veloppement de modules Odoo - Guide d'' @ [CHR 0xE9] @ ''veloppeur'',
       faqSection = ''developer'', faqSubsection = ''modules'', faqContent = c3,
       faqKeywords = [''module'', ''d'' @ [CHR 0xE9] @ ''veloppement'', ''development'', ''python'', ''xml'',
          ''manifest'', ''model''],
       faqWordCount = 3000,
       faqDescription = ''Guide complet pour d'' @ [CHR 0xE9] @ ''velopper des modules personnalis''
          @ [CHR 0xE9] @ ''s dans Odoo v17'' \<rparr>]"

definition syntheticDocument :: "int \<Rightarrow> store \<Rightarrow> faq \<Rightarrow> (addr \<times> (addr, addr) doc) \<times> store" where
  "syntheticDocument now h f =
     (let (ka, h1) = alloc h (ArrayObj (faqKeywords f));
          (ma, h2) = alloc h1 (MetaObj (SyntheticMeta ''synthetic'' ''faq'' (9 / 10) ''fr'' now));
          d = \<lparr> docId = faqId f,
                filePath = ''synthetic/'' @ faqId f @ ''.rst'',
                fullPath = ''synthetic/'' @ faqId f @ ''.rst'',
                title = faqTitle f,
                description = faqDescription f,
                content = faqContent f,
                docSection = faqSection f,
                docSubsection = faqSubsection f,
                keywordsOf = ka,
                lastUpdated = Some now,
                wordCount = faqWordCount f,
                readingTime = (faqWordCount f + 199) div 200,
                fileSize = length (faqContent f),
                fileType = None,
                metadata = Some ma \<rparr>;
          (da, h3) = alloc h2 (DocObj d)
      in ((da, d), h3))"

fun generateSyntheticDocuments ::
  "int \<Rightarrow> store \<Rightarrow> faq list \<Rightarrow> (addr \<times> (addr, addr) doc) list \<times> store" where
  "generateSyntheticDocuments now h [] = ([], h)"
| "generateSyntheticDocuments now h (f # fs) =
     (let (x, h1) = syntheticDocument now h f; (xs, h2) = generateSyntheticDocuments now h1 fs
      in (x # xs, h2))"

definition enrichDocumentationSources :: "int \<Rightarrow> faq list \<Rightarrow> service \<Rightarrow> service" where
  "enrichDocumentationSources now fs srv =
     (let (syntheticDocs, h) = generateSyntheticDocuments now (heap srv) fs
      in srv\<lparr> heap := h,
              documentationIndex := foldl (\<lambda>m (a, d). mapSet (docId d) a m)
                                      (documentationIndex srv) syntheticDocs \<rparr>)"

text \<open>A stored record is synthetic when its metadata object carries the source tag.\<close>

definition isSynthetic :: "store \<Rightarrow> ('k, addr, 'z) doc_scheme \<Rightarrow> bool" where
  "isSynthetic h d =
     (case metadata d of
        None \<Rightarrow> False
      | Some ma \<Rightarrow>
          (case lookup h ma of
             Some (MetaObj (SyntheticMeta src ty pr lang cr)) \<Rightarrow> src = ''synthetic''
           | _ \<Rightarrow> False))"

definition recordAccepted :: "store \<Rightarrow> addr \<Rightarrow> bool" where
  "recordAccepted h a =
     (case lookup h a of
        Some (DocObj d) \<Rightarrow> isSynthetic h d \<or> length (content d) \<ge> 100
      | _ \<Rightarrow> False)"

definition indexInvariant :: "service \<Rightarrow> bool" where
  "indexInvariant srv = list_all (\<lambda>(i, a). recordAccepted (heap srv) a) (documentationIndex srv)"

text \<open>The same condition on a record of a snapshot.\<close>

definition jsonAccepted :: "json_doc \<Rightarrow> bool" where
  "jsonAccepted d =
     ((case metadata d of
         Some (SyntheticMeta src ty pr lang cr) \<Rightarrow> src = ''synthetic''
       | _ \<Rightarrow> False)
      \<or> length (content d) \<ge> 100)"

section \<open>The score of one record\<close>

text \<open>
  What the loop of \<open>searchDocumentation\<close> computes for one record: the adaptive score
  for the preprocessed terms and the detected types of the query.
\<close>

definition documentScore ::
  "regexp_engine \<Rightarrow> int \<Rightarrow> ('k, 'm, 'z) doc_scheme \<Rightarrow> string \<Rightarrow> options \<Rightarrow> js_error + real" where
  "documentScore E now d query opts =
     (case preprocessSearchTerms query of
        Inl e \<Rightarrow> Inl e
      | Inr searchTerms \<Rightarrow>
          calculateAdaptiveScore E now d searchTerms query (detectQueryType query)
            (scoringContext d (detectQueryType query) opts))"



section \<open>Predicates of the proofs\<close>

text \<open>
  Every pair found by the search loop names a result object of the store that was created
  after the store had \<open>n\<close> objects.
\<close>

definition resultsAt :: "nat \<Rightarrow> store \<Rightarrow> (addr \<times> (addr, addr) result) list \<Rightarrow> bool" where
  "resultsAt n h found = list_all (\<lambda>(a, r). n \<le> a \<and> lookup h a = Some (ResultObj r)) found"

section \<open>Example data\<close>

text \<open>
  A service that holds one parsed document, the options object \<open>{}\<close>, and an engine for
  the patterns that are not decided here (it is not consulted for the example queries).
\<close>

definition exampleContent :: string where
  "exampleContent = ''Records of a spreadsheet are loaded in three steps: choose the file, map its columns to the fields, and run the test; the lines it reports tell where each value comes from''"

definition exampleDoc :: "(addr, addr) doc" where
  "exampleDoc =
     \<lparr> docId = ''general_import'', filePath = ''general/import.rst'',
       fullPath = ''/documentation/content/general/import.rst'',
       title = ''Import from CSV'', description = [], content = exampleContent,
       docSection = ''general'', docSubsection = ''import.rst'', keywordsOf = 0,
       lastUpdated = Some 0, wordCount = 32, readingTime = 1, fileSize = 400,
       fileType = Some ''.rst'', metadata = Some 1 \<rparr>"

definition exampleService :: service where
  "exampleService =
     \<lparr> heap = [ArrayObj [''import from csv'', ''general'', ''import.rst''],
               MetaObj (ParserMeta ''Import from CSV'' [] 0 ''general'' ''import.rst'' ''.rst'' ''rst''),
               DocObj exampleDoc],
       documentationIndex = [(''general_import'', 2)],
       lastUpdate = None,
       serviceMetrics = \<lparr> totalFiles = 0, processedFiles = 1, failedFiles = 0,
          totalBytesProcessed = 400, averageProcessingTime = 0, startTime = 0 \<rparr>,
       version = ''17.0'', warnings = [] \<rparr>"

definition defaultOptions :: options where
  "defaultOptions = \<lparr> optLimit = None, optSection = None, optMinScore = None,
     optIncludeMetadata = None, optContextualTerms = None \<rparr>"

text \<open>
  A second record, whose score for the query \<open>import\<close> is exactly 10, and the service
  that holds both records.
\<close>

definition glossaryContent :: string where
  "glossaryContent = ''The words used in the guides are listed here in the order of the alphabet, each one with a short note on what it means and a pointer to the page that says more''"

definition glossaryDoc :: "(addr, addr) doc" where
  "glossaryDoc =
     \<lparr> docId = ''user_glossary'', filePath = ''user/glossary.rst'',
       fullPath = ''/documentation/content/user/glossary.rst'',
       title = ''Glossary'', description = [], content = glossaryContent,
       docSection = ''user'', docSubsection = ''glossary.rst'', keywordsOf = 3,
       lastUpdated = Some 0, wordCount = 34, readingTime = 1, fileSize = 159,
       fileType = Some ''.rst'', metadata = Some 4 \<rparr>"

definition twoDocumentService :: service where
  "twoDocumentService =
     exampleService
       \<lparr> heap := heap exampleService
            @ [ArrayObj [''glossary'', ''user'', ''glossary.rst''],
               MetaObj (ParserMeta ''Glossary'' [] 3 ''user'' ''glossary.rst'' ''.rst'' ''rst''),
               DocObj glossaryDoc],
         documentationIndex := [(''general_import'', 2), (''user_glossary'', 5)] \<rparr>"

definition exampleEngine :: regexp_engine where
  "exampleEngine term subject = Inr 0"

text \<open>
  An environment for the examples: two readable files below the corpus root, and stand-ins
  for the text functions (the metadata of the example record, the text left as it is).
\<close>

definition exampleEnvironment :: environment where
  "exampleEnvironment =
     \<lparr> githubDocPath = ''/documentation/content'',
       readFile = (\<lambda>p. if p = ''/documentation/content/general/import.rst'' then Some exampleContent
                       else if p = ''/documentation/content/general/short.rst'' then Some ''Too short.''
                       else None),
       extractRstMetadata = (\<lambda>text p. \<lparr> pmTitle = ''Import from CSV'', pmDescription = [],
          pmKeywords = [''import from csv'', ''general'', ''import.rst''],
          pmSection = ''general'', pmSubsection = ''import.rst'' \<rparr>),
       extractMarkdownMetadata = (\<lambda>text p. \<lparr> pmTitle = ''Import from CSV'', pmDescription = [],
          pmKeywords = [''import from csv'', ''general'', ''import.rst''],
          pmSection = ''general'', pmSubsection = ''import.rst'' \<rparr>),
       cleanRstContent = (\<lambda>text. text),
       cleanMarkdownContent = (\<lambda>text. text) \<rparr>"

definition emptyCache :: cache where
  "emptyCache = \<lparr> indexFile = None, metadataFile = None, indexWritable = True, metadataWritable = True \<rparr>"

text \<open>The example record as a snapshot holds it.\<close>

definition exampleJson :: json_doc where
  "exampleJson =
     \<lparr> docId = ''general_import'', filePath = ''general/import.rst'',
       fullPath = ''/documentation/content/general/import.rst'',
       title = ''Import from CSV'', description = [], content = exampleContent,
       docSection = ''general'', docSubsection = ''import.rst'',
       keywordsOf = [''import from csv'', ''general'', ''import.rst''],
       lastUpdated = Some 0, wordCount = 32, readingTime = 1, fileSize = 400,
       fileType = Some ''.rst'',
       metadata = Some (ParserMeta ''Import from CSV'' [] [''import from csv'', ''general'', ''import.rst'']
                          ''general'' ''import.rst'' ''.rst'' ''rst'') \<rparr>"

section \<open>Properties of the string operations\<close>

lemma startsWith_append [simp]: "startsWith (t @ s) t"
  by (induction t) auto

lemma startsWith_iff_prefix: "startsWith s t \<longleftrightarrow> prefix t s"
  by (induction s t rule: startsWith.induct) auto

lemma endsWith_iff_suffix: "endsWith s t \<longleftrightarrow> suffix t s"
  by (simp add: endsWith_def startsWith_iff_prefix suffix_to_prefix)

lemma lowerChar_idem: "lowerChar (lowerChar c) = lowerChar c"
  by (cases c) (auto simp: lowerChar_def isUpperChar_def Let_def)

lemma toLowerCase_idem: "toLowerCase (toLowerCase s) = toLowerCase s"
  by (simp add: toLowerCase_def lowerChar_idem)


lemma length_toLowerCase: "length (toLowerCase s) = length s"
  by (simp add: toLowerCase_def)

lemma toLowerCase_fixed: "toLowerCase s = s \<longleftrightarrow> (\<forall>c\<in>set s. lowerChar c = c)"
  by (simp add: toLowerCase_def map_idI list_eq_iff_nth_eq all_set_conv_all_nth)

section \<open>Document identifiers: properties\<close>

lemma replaceSeparators_append:
  "replaceSeparators (s @ t) = replaceSeparators s @ replaceSeparators t"
  by (simp add: replaceSeparators_def)

lemma stripExtension_rst: "stripExtension (s @ ''.rst'') = s"
proof -
  have "suffix ''.rst'' (s @ ''.rst'')" by (rule suffixI) (rule refl)
  then show ?thesis by (simp add: stripExtension_def endsWith_iff_suffix)
qed

lemma stripExtension_md: "stripExtension (s @ ''.md'') = s"
proof -
  have "\<not> suffix ''.rst'' (s @ ''.md'')"
    by (auto simp: suffix_def)
  moreover have "suffix ''.md'' (s @ ''.md'')" by (rule suffixI) (rule refl)
  ultimately show ?thesis by (simp add: stripExtension_def endsWith_iff_suffix)
qed

lemma suffix_map_transfer:
  assumes "suffix e (map f s)" and "\<And>c. f c \<in> set e \<Longrightarrow> g c = f c"
  shows "suffix e (map g s)"
proof -
  from assms(1) obtain p where "map f s = p @ e" by (auto simp: suffix_def)
  then obtain s1 s2 where s: "s = s1 @ s2" and e: "map f s2 = e"
    by (auto simp: map_eq_append_conv)
  have "map g s2 = map f s2"
    using e assms(2) by (auto simp: list_eq_iff_nth_eq)
  with s e show ?thesis by (simp add: suffix_def)
qed

lemma isRstFile_id_stem:
  assumes "isRstFile (toLowerCase (replaceSeparators stem))"
  shows "isRstFile stem"
proof -
  let ?f = "\<lambda>c. lowerChar (if c = CHR 0x5C \<or> c = CHR ''/'' then CHR ''_'' else c)"
  have low: "lowerChar CHR ''_'' = CHR ''_''" by (simp add: lowerChar_def isUpperChar_def)
  have m: "toLowerCase (replaceSeparators stem) = map ?f stem"
    by (simp add: toLowerCase_def replaceSeparators_def)
  have tr: "suffix e (map lowerChar stem)"
    if "suffix e (map ?f stem)" and "CHR ''_'' \<notin> set e" for e
    using that(1)
  proof (rule suffix_map_transfer)
    fix c assume "?f c \<in> set e"
    with that(2) low show "lowerChar c = ?f c" by (auto split: if_splits)
  qed
  from assms have "suffix ''.rst'' (map ?f stem) \<or> suffix ''.md'' (map ?f stem)"
    by (simp add: isRstFile_def supportedExtensions_def endsWith_iff_suffix toLowerCase_idem m [symmetric])
  then have "suffix ''.rst'' (map lowerChar stem) \<or> suffix ''.md'' (map lowerChar stem)"
    using tr [of "''.rst''"] tr [of "''.md''"] by auto
  then show ?thesis
    by (simp add: isRstFile_def supportedExtensions_def endsWith_iff_suffix toLowerCase_def)
qed

text \<open>
  The pattern of the extension is case sensitive and is applied before the id is
  lower-cased: the scanner accepts \<open>Guide.MD\<close>, whose id keeps the extension.
\<close>

lemma generateDocumentId_upper_case_extension:
  "isRstFile ''Guide.MD'' \<and> generateDocumentId ''Guide.MD'' = ''guide.md''"
  by code_simp

section \<open>Query classification: properties\<close>

lemma matchingTags_empty:
  "matchingTags patterns q = [] \<longleftrightarrow> \<not> list_ex (\<lambda>(tag, keywords). someIncluded q keywords) patterns"
  by (auto simp: matchingTags_def filter_empty_conv list_ex_iff)

lemma matchingTags_subset: "set (matchingTags patterns q) \<subseteq> fst ` set patterns"
  by (auto simp: matchingTags_def)

lemma general_not_module_tag: "''general'' \<notin> fst ` set modulePatterns"
  by (simp add: modulePatterns_def)

lemma general_not_action_tag: "''general'' \<notin> fst ` set actionPatterns"
  by (simp add: actionPatterns_def)

section \<open>Query preprocessing: properties\<close>

lemma set_uniqAcc: "set (uniqAcc seen xs) = set xs - set seen"
  by (induction xs arbitrary: seen) auto

lemma distinct_uniqAcc: "distinct (uniqAcc seen xs)"
  by (induction xs arbitrary: seen) (auto simp: set_uniqAcc)

lemma set_uniq [simp]: "set (uniq xs) = set xs"
  by (simp add: uniq_def set_uniqAcc)

lemma distinct_uniq [simp]: "distinct (uniq xs)"
  by (simp add: uniq_def distinct_uniqAcc)

lemma splitRuns_pieces: "t \<in> set (splitRuns P s) \<Longrightarrow> set t \<subseteq> set s"
proof (induction P s rule: splitRuns.induct)
  case (1 P s)
  let ?r = "dropWhile (\<lambda>c. \<not> P c) s"
  have tk: "set (takeWhile (\<lambda>c. \<not> P c) s) \<subseteq> set s" by (auto dest: set_takeWhileD)
  have dr: "set (dropWhile P ?r) \<subseteq> set s"
    by (meson set_dropWhileD subsetI)
  show ?case
  proof (cases "?r = []")
    case True
    with "1.prems" tk show ?thesis by (subst (asm) splitRuns.simps) (simp add: Let_def)
  next
    case False
    with "1.prems" have "t = takeWhile (\<lambda>c. \<not> P c) s \<or> t \<in> set (splitRuns P (dropWhile P ?r))"
      by (subst (asm) splitRuns.simps) (auto simp: Let_def split: if_splits)
    then show ?thesis
    proof
      assume "t = takeWhile (\<lambda>c. \<not> P c) s" with tk show ?thesis by simp
    next
      assume "t \<in> set (splitRuns P (dropWhile P ?r))"
      with "1.IH" [OF refl refl False] have "set t \<subseteq> set (dropWhile P ?r)" by simp
      with dr show ?thesis by blast
    qed
  qed
qed

lemma baseTerms_lower: "t \<in> set (baseTerms query) \<Longrightarrow> toLowerCase t = t"
proof -
  assume "t \<in> set (baseTerms query)"
  then have "set t \<subseteq> set (toLowerCase query)"
    by (auto simp: baseTerms_def dest: splitRuns_pieces)
  then have "\<forall>c\<in>set t. lowerChar c = c"
    by (auto simp: toLowerCase_def lowerChar_idem)
  then show ?thesis by (simp add: toLowerCase_fixed)
qed

lemma expandTerms_values:
  "expandTerms table ts = Inr r \<Longrightarrow> set r \<subseteq> set (concat (map snd table))"
proof (induction ts arbitrary: r)
  case Nil then show ?case by simp
next
  case (Cons t ts)
  then show ?case
    by (auto split: option.splits sum.splits if_splits dest!: map_of_SomeD) force+
qed

lemma expandTerms_returns:
  "\<forall>t\<in>set ts. \<not> inheritedProperty t \<Longrightarrow> \<exists>r. expandTerms table ts = Inr r"
  by (induction ts) (auto split: option.splits sum.splits)

section \<open>The search: the store and the results\<close>

lemma lookup_append_old: "a < length h \<Longrightarrow> lookup (h @ new) a = lookup h a"
  by (simp add: lookup_def nth_append)

lemma lookup_alloc_new: "lookup (h @ [x]) (length h) = Some x"
  by (simp add: lookup_def)

lemma searchLoop_store:
  "searchLoop E now opts ts q qt idx h found = (out, h') \<Longrightarrow> \<exists>new. h' = h @ new"
proof (induction idx arbitrary: h found)
  case Nil
  then show ?case by simp
next
  case (Cons e idx)
  obtain i a where e: "e = (i, a)" by (cases e)
  show ?case
  proof (cases "lookup h a")
    case None
    with Cons.prems e show ?thesis by simp
  next
    case (Some x)
    show ?thesis
    proof (cases x)
      case (DocObj d)
      show ?thesis
      proof (cases "sectionExcluded opts (docSection d)")
        case True
        with Cons.prems e Some DocObj Cons.IH show ?thesis by simp
      next
        case False
        show ?thesis
        proof (cases "calculateAdaptiveScore E now d ts q qt (scoringContext d qt opts)")
          case (Inl err)
          with Cons.prems e Some DocObj False show ?thesis by simp
        next
          case (Inr sc)
          show ?thesis
          proof (cases "sc \<ge> minScoreOf opts")
            case True
            let ?r = "makeResult d sc (extractRelevantExcerpt (content d) ts) opts"
            from Cons.prems e Some DocObj False Inr True
            have "searchLoop E now opts ts q qt idx (h @ [ResultObj ?r]) (found @ [(length h, ?r)]) = (out, h')"
              by (simp add: alloc_def Let_def)
            from Cons.IH [OF this] show ?thesis by auto
          next
            case F: False
            with Cons.prems e Some DocObj False Inr Cons.IH show ?thesis by simp
          qed
        qed
      qed
    qed (use Cons.prems e Some in simp_all)
  qed
qed

lemma lookup_grow: "lookup h a = Some x \<Longrightarrow> lookup (h @ new) a = Some x"
  by (auto simp: lookup_def nth_append split: if_splits)

lemma resultsAt_grow:
  "resultsAt n h found \<Longrightarrow> resultsAt n (h @ new) found"
  unfolding resultsAt_def list_all_iff by (fastforce intro: lookup_grow)

lemma searchLoop_found:
  "searchLoop E now opts ts q qt idx h found = (Inr found', h') \<Longrightarrow> resultsAt n h found
     \<Longrightarrow> n \<le> length h \<Longrightarrow> resultsAt n h' found'"
proof (induction idx arbitrary: h found)
  case Nil
  then show ?case by simp
next
  case (Cons e idx)
  obtain i a where e: "e = (i, a)" by (cases e)
  show ?case
  proof (cases "lookup h a")
    case None
    with Cons.prems e show ?thesis by simp
  next
    case (Some x)
    show ?thesis
    proof (cases x)
      case (DocObj d)
      show ?thesis
      proof (cases "sectionExcluded opts (docSection d)")
        case True
        with Cons.prems e Some DocObj Cons.IH show ?thesis by simp
      next
        case False
        show ?thesis
        proof (cases "calculateAdaptiveScore E now d ts q qt (scoringContext d qt opts)")
          case (Inl err)
          with Cons.prems e Some DocObj False show ?thesis by simp
        next
          case (Inr sc)
          show ?thesis
          proof (cases "sc \<ge> minScoreOf opts")
            case True
            let ?r = "makeResult d sc (extractRelevantExcerpt (content d) ts) opts"
            from Cons.prems e Some DocObj False Inr True
            have run: "searchLoop E now opts ts q qt idx (h @ [ResultObj ?r]) (found @ [(length h, ?r)]) = (Inr found', h')"
              by (simp add: alloc_def Let_def)
            have "resultsAt n (h @ [ResultObj ?r]) (found @ [(length h, ?r)])"
              using resultsAt_grow [OF Cons.prems(2), of "[ResultObj ?r]"] Cons.prems(3)
              by (simp add: resultsAt_def lookup_alloc_new)
            from Cons.IH [OF run this] Cons.prems(3) show ?thesis by simp
          next
            case F: False
            with Cons.prems e Some DocObj False Inr Cons.IH show ?thesis by simp
          qed
        qed
      qed
    qed (use Cons.prems e Some in simp_all)
  qed
qed

text \<open>
  A result found by the loop is the copy of a record of the index that the section filter
  lets through, with the adaptive score of that record.
\<close>

lemma makeResult_fields: "score (makeResult d sc ex opts) = sc" "docSection (makeResult d sc ex opts) = docSection d"
  by (simp_all add: makeResult_def Let_def doc.defs result.defs)

lemma makeResult_truncate: "doc.truncate (makeResult d sc ex opts) = d"
  by (simp add: makeResult_def Let_def doc.defs result.defs)

lemma lookup_DocObj_old:
  "lookup (h @ [ResultObj r]) a = Some (DocObj d) \<Longrightarrow> lookup h a = Some (DocObj d)"
  by (auto simp: lookup_def nth_append split: if_splits)

lemma searchLoop_scored:
  "searchLoop E now opts ts q qt idx h found = (Inr found', h') \<Longrightarrow> (a, r) \<in> set found'
     \<Longrightarrow> (a, r) \<in> set found
       \<or> (\<exists>i da d. (i, da) \<in> set idx \<and> lookup h da = Some (DocObj d)
             \<and> \<not> sectionExcluded opts (docSection d)
             \<and> calculateAdaptiveScore E now d ts q qt (scoringContext d qt opts) = Inr (score r)
             \<and> doc.truncate r = d \<and> minScoreOf opts \<le> score r)"
proof (induction idx arbitrary: h found)
  case Nil
  then show ?case by simp
next
  case (Cons e idx)
  obtain i a' where e: "e = (i, a')" by (cases e)
  show ?case
  proof (cases "lookup h a'")
    case None
    with Cons.prems e show ?thesis by simp
  next
    case (Some x)
    show ?thesis
    proof (cases x)
      case (DocObj d)
      show ?thesis
      proof (cases "sectionExcluded opts (docSection d)")
        case True
        with Cons.prems e Some DocObj have "searchLoop E now opts ts q qt idx h found = (Inr found', h')"
          by simp
        from Cons.IH [OF this Cons.prems(2)] show ?thesis by auto
      next
        case False
        show ?thesis
        proof (cases "calculateAdaptiveScore E now d ts q qt (scoringContext d qt opts)")
          case (Inl err)
          with Cons.prems e Some DocObj False show ?thesis by simp
        next
          case (Inr sc)
          show ?thesis
          proof (cases "sc \<ge> minScoreOf opts")
            case True
            let ?r = "makeResult d sc (extractRelevantExcerpt (content d) ts) opts"
            from Cons.prems e Some DocObj False Inr True
            have run: "searchLoop E now opts ts q qt idx (h @ [ResultObj ?r]) (found @ [(length h, ?r)]) = (Inr found', h')"
              by (simp add: alloc_def Let_def)
            from Cons.IH [OF run Cons.prems(2)] consider
                (old) "(a, r) \<in> set found"
              | (added) "(a, r) = (length h, ?r)"
              | (later) i' da d' where "(i', da) \<in> set idx" "lookup (h @ [ResultObj ?r]) da = Some (DocObj d')"
                  "\<not> sectionExcluded opts (docSection d')"
                  "calculateAdaptiveScore E now d' ts q qt (scoringContext d' qt opts) = Inr (score r)"
                  "doc.truncate r = d'" "minScoreOf opts \<le> score r"
              by auto
            then show ?thesis
            proof cases
              case old
              then show ?thesis by simp
            next
              case added
              then have r: "r = ?r" by simp
              have "(i, a') \<in> set (e # idx)" using e by simp
              moreover have "lookup h a' = Some (DocObj d)" using Some DocObj by simp
              moreover have "calculateAdaptiveScore E now d ts q qt (scoringContext d qt opts) = Inr (score r)"
                using Inr r by (simp add: makeResult_fields)
              moreover have "doc.truncate r = d" using r by (simp add: makeResult_truncate)
              moreover have "minScoreOf opts \<le> score r" using True r by (simp add: makeResult_fields)
              ultimately show ?thesis using False by blast
            next
              case later
              from later(2) have "lookup h da = Some (DocObj d')" by (rule lookup_DocObj_old)
              with later show ?thesis by (metis list.set_intros(2))
            qed
          next
            case F: False
            with Cons.prems e Some DocObj False Inr
            have "searchLoop E now opts ts q qt idx h found = (Inr found', h')" by simp
            from Cons.IH [OF this Cons.prems(2)] show ?thesis by auto
          qed
        qed
      qed
    qed (use Cons.prems e Some in simp_all)
  qed
qed

lemma set_sliceTo: "set (sliceTo xs e) \<subseteq> set xs"
  by (auto simp: sliceTo_def dest: in_set_takeD)

lemma searchDocumentation_Inr:
  assumes "searchDocumentation E now srv query opts = (Inr out, srv')"
  shows "\<exists>ts found h.
           preprocessSearchTerms query = Inr ts
           \<and> searchLoop E now opts ts query (detectQueryType query) (documentationIndex srv) (heap srv) []
             = (Inr found, h)
           \<and> srv' = srv\<lparr>heap := h\<rparr>
           \<and> set (results out) \<subseteq> fst ` {x \<in> set found. score (snd x) > 10}"
proof (cases "preprocessSearchTerms query")
  case (Inl e)
  with assms show ?thesis by (simp add: searchDocumentation_def)
next
  case (Inr ts)
  obtain r h where loop: "searchLoop E now opts ts query (detectQueryType query) (documentationIndex srv) (heap srv) [] = (r, h)"
    by (cases "searchLoop E now opts ts query (detectQueryType query) (documentationIndex srv) (heap srv) []")
  show ?thesis
  proof (cases r)
    case (Inl e)
    with assms Inr loop show ?thesis by (simp add: searchDocumentation_def Let_def)
  next
    case found: (Inr found)
    let ?q = "filter (\<lambda>(a, r). score r > 10) (sort_key (\<lambda>(a, r). - score r) found)"
    let ?l = "case optLimit opts of None \<Rightarrow> 20 | Some l \<Rightarrow> l"
    from assms Inr loop found have ov: "results out = map fst (sliceTo ?q ?l)"
      and s: "srv' = srv\<lparr>heap := h\<rparr>"
      by (auto simp: searchDocumentation_def Let_def)
    have "set (sliceTo ?q ?l) \<subseteq> {x \<in> set found. score (snd x) > 10}"
      using set_sliceTo [of ?q ?l] by auto
    then have "set (results out) \<subseteq> fst ` {x \<in> set found. score (snd x) > 10}"
      unfolding ov by auto
    with Inr s loop [unfolded found] show ?thesis by (intro exI conjI)
  qed
qed

lemma searchDocumentation_store:
  assumes "searchDocumentation E now srv query opts = (out, srv')"
  shows "\<exists>new. heap srv' = heap srv @ new \<and> documentationIndex srv' = documentationIndex srv"
proof (cases "preprocessSearchTerms query")
  case (Inl e)
  with assms show ?thesis by (auto simp: searchDocumentation_def)
next
  case (Inr ts)
  obtain r h where loop: "searchLoop E now opts ts query (detectQueryType query) (documentationIndex srv) (heap srv) [] = (r, h)"
    by (cases "searchLoop E now opts ts query (detectQueryType query) (documentationIndex srv) (heap srv) []")
  from assms Inr loop have "srv' = srv\<lparr>heap := h\<rparr>"
    by (cases r) (auto simp: searchDocumentation_def Let_def)
  with searchLoop_store [OF loop] show ?thesis by auto
qed

section \<open>The example search, step by step\<close>

lemma import_terms: "preprocessSearchTerms ''import'' = Inr [''import'']"
  by code_simp

lemma import_type: "detectQueryType ''import'' = [''general'']"
  by code_simp

lemma import_count: "regexpMatchCount exampleEngine ''import'' (toLowerCase (content exampleDoc)) = Inr 0"
  by code_simp

lemma import_includes:
  "includesStr (toLowerCase (title exampleDoc)) ''import''"
  "toLowerCase (title exampleDoc) \<noteq> ''import''"
  "\<not> includesStr (toLowerCase (description exampleDoc)) ''import''"
  "\<not> includesStr (toLowerCase (docSection exampleDoc)) ''import''"
  "docSubsection exampleDoc \<noteq> []"
  "includesStr (toLowerCase (docSubsection exampleDoc)) ''import''"
  "\<not> includesStr (toLowerCase (content exampleDoc)) (toLowerCase ''import'')"
  by code_simp+

lemma import_termScore:
  "termScore exampleEngine exampleDoc (scoringContext exampleDoc [''general''] defaultOptions) ''import'' = Inr 120"
  by (simp add: termScore_def scoringContext_def import_count import_includes)

lemma example_typeBonus: "getTypeSpecificBonus exampleDoc [''general''] q = 0"
  by (simp add: getTypeSpecificBonus_def typeBonus_def)

lemma example_quality_facts:
  "\<not> wordCount exampleDoc > 500" "\<not> wordCount exampleDoc > 1000" "wordCount exampleDoc < 100"
  "lastUpdated exampleDoc = Some 0"
  "\<not> (includesStr (toLowerCase (content exampleDoc)) ''class '' \<or> includesStr (toLowerCase (content exampleDoc)) ''def ''
      \<or> includesStr (toLowerCase (content exampleDoc)) ''import '' \<or> includesStr (toLowerCase (content exampleDoc)) ''from '')"
  "\<not> includesStr (docSection exampleDoc) ''user'' \<and> \<not> includesStr (docSection exampleDoc) ''administration''
     \<and> \<not> includesStr (docSection exampleDoc) ''applications''"
  "length (toLowerCase (title exampleDoc)) > 10" "length (toLowerCase (title exampleDoc)) < 100"
  by code_simp+

lemma example_quality: "applyQualityAdjustments 0 exampleDoc q [''general''] = 0"
  using example_quality_facts(5)
  by (simp add: applyQualityAdjustments_def example_quality_facts(1-4,6-8))

lemma example_contextual: "contextualBonus (scoringContext exampleDoc qt defaultOptions) = 0"
  by (simp add: contextualBonus_def scoringContext_def defaultOptions_def)

lemma import_score:
  "calculateAdaptiveScore exampleEngine 0 exampleDoc [''import''] ''import'' [''general'']
     (scoringContext exampleDoc [''general''] defaultOptions) = Inr 120"
proof -
  have c: "contentLower (scoringContext exampleDoc [''general''] defaultOptions) = toLowerCase (content exampleDoc)"
    by (simp add: scoringContext_def)
  show ?thesis
    by (simp add: calculateAdaptiveScore_def import_termScore example_typeBonus example_quality
        example_contextual c import_includes(7))
qed

lemma example_store:
  "heap exampleService = [ArrayObj [''import from csv'', ''general'', ''import.rst''],
               MetaObj (ParserMeta ''Import from CSV'' [] 0 ''general'' ''import.rst'' ''.rst'' ''rst''),
               DocObj exampleDoc]"
  "documentationIndex exampleService = [(''general_import'', 2)]"
  by (simp_all add: exampleService_def)

lemma example_loop_facts:
  "\<not> sectionExcluded defaultOptions s" "minScoreOf defaultOptions = 0" "optLimit defaultOptions = None"
  "docSection exampleDoc = ''general''"
  by (simp_all add: sectionExcluded_def minScoreOf_def defaultOptions_def exampleDoc_def)

lemma example_summary: "sourceSummary ''general'' = ''Ces informations proviennent de la documentation general''"
  by code_simp

lemma example_search:
  "searchDocumentation exampleEngine 0 exampleService ''import'' defaultOptions
     = (Inr \<lparr> results = [3],
               sourcesSummary = [''Ces informations proviennent de la documentation general''] \<rparr>,
        exampleService\<lparr> heap := heap exampleService
           @ [ResultObj (makeResult exampleDoc 120 (extractRelevantExcerpt (content exampleDoc) [''import'']) defaultOptions)] \<rparr>)"
  by (simp add: searchDocumentation_def import_terms import_type example_store lookup_def alloc_def
      example_loop_facts import_score makeResult_fields uniq_def sliceTo_def example_summary Let_def
      numeral_3_eq_3)

text \<open>The same search in the service of two records.\<close>

lemma glossary_facts:
  "\<not> includesStr (toLowerCase (title glossaryDoc)) ''import''"
  "\<not> includesStr (toLowerCase (description glossaryDoc)) ''import''"
  "\<not> includesStr (toLowerCase (docSection glossaryDoc)) ''import''"
  "\<not> includesStr (toLowerCase (docSubsection glossaryDoc)) ''import''"
  "\<not> includesStr (toLowerCase (content glossaryDoc)) (toLowerCase ''import'')"
  "regexpMatchCount exampleEngine ''import'' (toLowerCase (content glossaryDoc)) = Inr 0"
  by code_simp+

lemma glossary_termScore:
  "termScore exampleEngine glossaryDoc (scoringContext glossaryDoc [''general''] defaultOptions) ''import'' = Inr 0"
  by (simp add: termScore_def scoringContext_def glossary_facts)

lemma glossary_quality_facts:
  "\<not> wordCount glossaryDoc > 500" "\<not> wordCount glossaryDoc > 1000" "wordCount glossaryDoc < 100"
  "lastUpdated glossaryDoc = Some 0"
  "\<not> (includesStr (toLowerCase (content glossaryDoc)) ''class '' \<or> includesStr (toLowerCase (content glossaryDoc)) ''def ''
      \<or> includesStr (toLowerCase (content glossaryDoc)) ''import '' \<or> includesStr (toLowerCase (content glossaryDoc)) ''from '')"
  "includesStr (docSection glossaryDoc) ''user''"
  "\<not> length (toLowerCase (title glossaryDoc)) > 10"
  by code_simp+

lemma glossary_quality: "applyQualityAdjustments 0 glossaryDoc q [''general''] = 10"
  using glossary_quality_facts(5)
  by (simp add: applyQualityAdjustments_def glossary_quality_facts(1-4,6-7))

lemma glossary_score:
  "calculateAdaptiveScore exampleEngine 0 glossaryDoc [''import''] ''import'' [''general'']
     (scoringContext glossaryDoc [''general''] defaultOptions) = Inr 10"
proof -
  have c: "contentLower (scoringContext glossaryDoc [''general''] defaultOptions) = toLowerCase (content glossaryDoc)"
    by (simp add: scoringContext_def)
  have t: "getTypeSpecificBonus glossaryDoc [''general''] ''import'' = 0"
    by (simp add: getTypeSpecificBonus_def typeBonus_def)
  have x: "contextualBonus (scoringContext glossaryDoc [''general''] defaultOptions) = 0"
    by (simp add: contextualBonus_def scoringContext_def defaultOptions_def)
  show ?thesis
    by (simp add: calculateAdaptiveScore_def glossary_termScore t glossary_quality x c glossary_facts(5))
qed

lemma two_store:
  "heap twoDocumentService = [ArrayObj [''import from csv'', ''general'', ''import.rst''],
               MetaObj (ParserMeta ''Import from CSV'' [] 0 ''general'' ''import.rst'' ''.rst'' ''rst''),
               DocObj exampleDoc,
               ArrayObj [''glossary'', ''user'', ''glossary.rst''],
               MetaObj (ParserMeta ''Glossary'' [] 3 ''user'' ''glossary.rst'' ''.rst'' ''rst''),
               DocObj glossaryDoc]"
  "documentationIndex twoDocumentService = [(''general_import'', 2), (''user_glossary'', 5)]"
  by (simp_all add: twoDocumentService_def exampleService_def)

lemma two_search:
  "searchDocumentation exampleEngine 0 twoDocumentService ''import'' defaultOptions
     = (Inr \<lparr> results = [6],
               sourcesSummary = [''Ces informations proviennent de la documentation general''] \<rparr>,
        twoDocumentService\<lparr> heap := heap twoDocumentService
           @ [ResultObj (makeResult exampleDoc 120 (extractRelevantExcerpt (content exampleDoc) [''import'']) defaultOptions),
              ResultObj (makeResult glossaryDoc 10 (extractRelevantExcerpt (content glossaryDoc) [''import'']) defaultOptions)] \<rparr>)"
  by (simp add: searchDocumentation_def import_terms import_type two_store lookup_def alloc_def
      example_loop_facts import_score glossary_score makeResult_fields uniq_def sliceTo_def example_summary Let_def
      numeral_3_eq_3 eval_nat_numeral)

lemma example_documentScores:
  "documentScore exampleEngine 0 exampleDoc ''import'' defaultOptions = Inr 120"
  "documentScore exampleEngine 0 glossaryDoc ''import'' defaultOptions = Inr 10"
  by (simp_all add: documentScore_def import_terms import_type import_score glossary_score)

lemma cpp_facts:
  "preprocessSearchTerms ''c++'' = Inr [''c++'']" "detectQueryType ''c++'' = [''general'']"
  "\<not> literalPattern ''c++''" "quantifiedLiterals ''c++''" "\<not> quantifiersWellFormed NeedAtom ''c++''"
  "preprocessSearchTerms ''constructor'' = Inl TypeError"
  by code_simp+

section \<open>Appending text to the content\<close>

















section \<open>The example scores\<close>







section \<open>Indexing: failed files\<close>

lemma processRstFile_returns:
  "\<exists>r srv'. processRstFile env now srv file = Inr (r, srv')
      \<and> failedFiles (serviceMetrics srv') = failedFiles (serviceMetrics srv)"
proof (cases "processRstFileBody env now srv file")
  case (Inl e)
  then show ?thesis by (simp add: processRstFile_def)
next
  case (Inr r)
  then show ?thesis
    by (auto simp: processRstFile_def processRstFileBody_def Let_def alloc_def
        split: option.splits if_splits)
qed

lemma indexLoop_failedFiles:
  "failedFiles (serviceMetrics (fst (indexLoop env now files n srv c))) = failedFiles (serviceMetrics srv)"
proof (induction files arbitrary: n srv c)
  case Nil
  then show ?case by simp
next
  case (Cons f files)
  from processRstFile_returns [of env now srv f] obtain r srv' where
    p: "processRstFile env now srv f = Inr (r, srv')"
    and f: "failedFiles (serviceMetrics srv') = failedFiles (serviceMetrics srv)" by blast
  show ?case
  proof (cases r)
    case None
    with p f Cons.IH show ?thesis by simp
  next
    case (Some x)
    obtain a d where x: "x = (a, d)" by (cases x)
    from p f Some x Cons.IH show ?thesis by (simp add: Let_def)
  qed
qed

section \<open>The index invariant\<close>

lemma lookup_Some_length: "lookup h a = Some x \<Longrightarrow> a < length h"
  by (auto simp: lookup_def split: if_splits)

lemma isSynthetic_grow:
  "isSynthetic h d \<Longrightarrow> isSynthetic (h @ new) d"
  by (auto simp: isSynthetic_def lookup_grow split: option.splits obj.splits meta.splits)

lemma recordAccepted_grow: "recordAccepted h a \<Longrightarrow> recordAccepted (h @ new) a"
  by (auto simp: recordAccepted_def lookup_grow isSynthetic_grow split: option.splits obj.splits)

lemma set_mapSet: "set (mapSet k v m) \<subseteq> insert (k, v) (set m)"
  by (induction m) (auto split: if_splits)

lemma map_fst_mapSet_new: "k \<notin> fst ` set m \<Longrightarrow> mapSet k v m = m @ [(k, v)]"
  by (induction m) auto

lemma indexInvariant_step:
  assumes "indexInvariant srv" and "heap srv' = heap srv @ new" and "recordAccepted (heap srv') a"
    and "documentationIndex srv' = mapSet k a (documentationIndex srv)"
  shows "indexInvariant srv'"
proof -
  have "recordAccepted (heap srv') b" if "(i, b) \<in> set (documentationIndex srv')" for i b
  proof -
    from that assms(4) set_mapSet [of k a "documentationIndex srv"]
    have "(i, b) = (k, a) \<or> (i, b) \<in> set (documentationIndex srv)" by auto
    then show ?thesis
    proof
      assume "(i, b) = (k, a)" with assms(3) show ?thesis by simp
    next
      assume "(i, b) \<in> set (documentationIndex srv)"
      with assms(1) have "recordAccepted (heap srv) b" by (auto simp: indexInvariant_def list_all_iff)
      then show ?thesis unfolding assms(2) by (rule recordAccepted_grow)
    qed
  qed
  then show ?thesis by (auto simp: indexInvariant_def list_all_iff)
qed

lemma indexInvariant_fields:
  "heap srv' = heap srv \<Longrightarrow> documentationIndex srv' = documentationIndex srv
     \<Longrightarrow> indexInvariant srv' = indexInvariant srv"
  by (simp add: indexInvariant_def)

lemma processRstFile_result:
  assumes "processRstFile env now srv f = Inr (r, srv')"
  shows "documentationIndex srv' = documentationIndex srv \<and> (\<exists>new. heap srv' = heap srv @ new)
       \<and> (\<forall>a d. r = Some (a, d) \<longrightarrow> recordAccepted (heap srv') a)"
proof (cases "processRstFileBody env now srv f")
  case (Inl e)
  with assms show ?thesis by (auto simp: processRstFile_def)
next
  case (Inr x)
  with assms have b: "processRstFileBody env now srv f = Inr (r, srv')" by (simp add: processRstFile_def)
  show ?thesis
  proof (cases r)
    case None
    with b show ?thesis
      by (auto simp: processRstFileBody_def Let_def alloc_def split: option.splits if_splits)
  next
    case (Some p)
    with b show ?thesis
      by (auto simp: processRstFileBody_def Let_def alloc_def recordAccepted_def lookup_def nth_append
          split: option.splits if_splits)
  qed
qed

lemma indexLoop_invariant:
  "indexInvariant srv \<Longrightarrow> indexInvariant (fst (indexLoop env now files n srv c))"
proof (induction files arbitrary: n srv c)
  case Nil
  then show ?case by simp
next
  case (Cons f files)
  from processRstFile_returns [of env now srv f] obtain r srv' where
    p: "processRstFile env now srv f = Inr (r, srv')" by blast
  from processRstFile_result [OF p] obtain new where
    idx: "documentationIndex srv' = documentationIndex srv"
    and h: "heap srv' = heap srv @ new"
    and acc: "\<forall>a d. r = Some (a, d) \<longrightarrow> recordAccepted (heap srv') a" by blast
  have inv': "indexInvariant srv'"
    using Cons.prems idx h
    by (auto simp: indexInvariant_def list_all_iff intro: recordAccepted_grow)
  show ?case
  proof (cases r)
    case None
    with p inv' Cons.IH show ?thesis by simp
  next
    case (Some x)
    obtain a d where x: "x = (a, d)" by (cases x)
    let ?srv2 = "srv'\<lparr> documentationIndex := mapSet (docId d) a (documentationIndex srv') \<rparr>"
    have "indexInvariant ?srv2"
      by (rule indexInvariant_step [OF inv', of _ "[]" a "docId d"]) (use acc Some x in simp_all)
    from Cons.IH [OF this] p Some x show ?thesis by (simp add: Let_def)
  qed
qed

lemma indexGitHubDocumentation_invariant:
  assumes "indexInvariant srv"
  shows "indexInvariant (fst (indexGitHubDocumentation env now files srv c))"
proof -
  obtain s1 c1 where i: "indexLoop env now files 0 srv c = (s1, c1)"
    by (cases "indexLoop env now files 0 srv c")
  from indexLoop_invariant [OF assms, of env now files 0 c] i have "indexInvariant s1" by simp
  then have "indexInvariant (s1\<lparr>lastUpdate := Some now\<rparr>)" by (simp add: indexInvariant_def)
  with i show ?thesis by (simp add: indexGitHubDocumentation_def Let_def)
qed

section \<open>Snapshots: writing and reading back\<close>

lemma arrayAt_grow: "arrayAt h a = Some xs \<Longrightarrow> arrayAt (h @ new) a = Some xs"
  by (auto simp: arrayAt_def lookup_grow split: option.splits obj.splits)

lemma metaToJson_grow: "metaToJson h m = Some j \<Longrightarrow> metaToJson (h @ new) m = Some j"
  by (auto simp: metaToJson_def arrayAt_grow split: meta.splits option.splits)

lemma metaAt_grow: "metaAt h a = Some j \<Longrightarrow> metaAt (h @ new) a = Some j"
  by (auto simp: metaAt_def lookup_grow metaToJson_grow split: option.splits obj.splits)

lemma docToJson_grow: "docToJson h d = Some j \<Longrightarrow> docToJson (h @ new) d = Some j"
  by (auto simp: docToJson_def arrayAt_grow metaAt_grow split: option.splits)

lemma docAt_grow: "docAt h a = Some j \<Longrightarrow> docAt (h @ new) a = Some j"
  by (auto simp: docAt_def lookup_grow docToJson_grow split: option.splits obj.splits)

lemma entriesToJson_grow:
  "entriesToJson h es = Some docs \<Longrightarrow> entriesToJson (h @ new) es = Some docs"
  by (induction es arbitrary: docs) (auto simp: docAt_grow split: option.splits)

lemma entriesToJson_keys: "entriesToJson h es = Some docs \<Longrightarrow> map fst docs = map fst es"
  by (induction es arbitrary: docs) (auto split: option.splits)

lemma entriesToJson_member:
  "entriesToJson h es = Some docs \<Longrightarrow> (i, a) \<in> set es \<Longrightarrow> \<exists>j. docAt h a = Some j \<and> (i, j) \<in> set docs"
  by (induction es arbitrary: docs) (auto split: option.splits)

lemma entriesToJson_source:
  "entriesToJson h es = Some docs \<Longrightarrow> (i, j) \<in> set docs \<Longrightarrow> \<exists>a. docAt h a = Some j \<and> (i, a) \<in> set es"
  by (induction es arbitrary: docs) (fastforce split: option.splits)+

lemma withReferences_same: "withReferences d (keywordsOf d) (metadata d) = (d :: ('k, 'm) doc)"
  by (cases d) (simp add: withReferences_def)

lemma withReferences_fields [simp]:
  "keywordsOf (withReferences d k m) = k" "metadata (withReferences d k m) = m"
  "content (withReferences d k m) = content d" "docSection (withReferences d k m) = docSection d"
  "docId (withReferences d k m) = docId d"
  by (simp_all add: withReferences_def)

lemma withReferences_twice: "withReferences (withReferences d k m) k' m' = withReferences d k' m'"
  by (simp add: withReferences_def)

lemma allocMeta_result:
  assumes "allocMeta h m = (a, h')"
  shows "(\<exists>new. h' = h @ new) \<and> metaAt h' a = Some m"
  using assms
  by (cases m) (auto simp: allocMeta_def alloc_def metaAt_def metaToJson_def arrayAt_def lookup_def nth_append)

lemma allocDoc_result:
  assumes "allocDoc h d = (a, h')"
  shows "(\<exists>new. h' = h @ new) \<and> docAt h' a = Some d"
proof (cases "metadata d")
  case None
  with assms have a: "a = Suc (length h)" and h': "h' = h @ [ArrayObj (keywordsOf d), DocObj (withReferences d (length h) None)]"
    by (auto simp: allocDoc_def alloc_def Let_def)
  have "docAt h' a = Some (withReferences d (keywordsOf d) (metadata d))"
    unfolding a h' using None
    by (simp add: docAt_def docToJson_def arrayAt_def lookup_def nth_append withReferences_twice)
  with h' show ?thesis by (simp add: withReferences_same)
next
  case (Some m)
  obtain ma h2 where am: "allocMeta (h @ [ArrayObj (keywordsOf d)]) m = (ma, h2)"
    by (cases "allocMeta (h @ [ArrayObj (keywordsOf d)]) m")
  from allocMeta_result [OF am] obtain new where h2: "h2 = h @ [ArrayObj (keywordsOf d)] @ new"
    and mj: "metaAt h2 ma = Some m" by auto
  from assms Some am have a: "a = length h2" and h': "h' = h2 @ [DocObj (withReferences d (length h) (Some ma))]"
    by (auto simp: allocDoc_def alloc_def Let_def)
  have k: "arrayAt h' (length h) = Some (keywordsOf d)"
    unfolding h' h2 by (simp add: arrayAt_def lookup_def nth_append)
  have m': "metaAt h' ma = Some m" unfolding h' using mj by (rule metaAt_grow)
  have "docAt h' a = Some (withReferences d (keywordsOf d) (metadata d))"
    unfolding a using k m' Some
    by (simp add: docAt_def docToJson_def lookup_def h' withReferences_twice)
  with h' h2 show ?thesis by (simp add: withReferences_same)
qed

lemma allocEntries_result:
  "allocEntries h docs = (es, h') \<Longrightarrow> (\<exists>new. h' = h @ new) \<and> entriesToJson h' es = Some docs"
proof (induction docs arbitrary: h es h')
  case Nil
  then show ?case by simp
next
  case (Cons x docs)
  obtain i d where x: "x = (i, d)" by (cases x)
  obtain a h1 where ad: "allocDoc h d = (a, h1)" by (cases "allocDoc h d")
  obtain es2 h2 where ae: "allocEntries h1 docs = (es2, h2)" by (cases "allocEntries h1 docs")
  from Cons.prems x ad ae have es: "es = (i, a) # es2" and h': "h' = h2" by (auto simp: Let_def)
  from allocDoc_result [OF ad] obtain n1 where h1: "h1 = h @ n1" and da: "docAt h1 a = Some d" by auto
  from Cons.IH [OF ae] obtain n2 where h2: "h2 = h1 @ n2" and ej: "entriesToJson h2 es2 = Some docs" by auto
  have "docAt h2 a = Some d" unfolding h2 using da by (rule docAt_grow)
  with ej es h' x h1 h2 show ?case by simp
qed

lemma foldl_mapSet_distinct:
  "distinct (map fst (m @ es)) \<Longrightarrow> foldl (\<lambda>m (k, v). mapSet k v m) m es = m @ es"
proof (induction es arbitrary: m)
  case Nil
  then show ?case by simp
next
  case (Cons e es)
  obtain k v where e: "e = (k, v)" by (cases e)
  from Cons.prems e have "k \<notin> fst ` set m" by auto
  then have "mapSet k v m = m @ [(k, v)]" by (rule map_fst_mapSet_new)
  moreover from Cons.prems e have "distinct (map fst ((m @ [(k, v)]) @ es))" by simp
  ultimately show ?case using Cons.IH [of "m @ [(k, v)]"] e by simp
qed

lemma newMap_distinct: "distinct (map fst es) \<Longrightarrow> newMap es = es"
  using foldl_mapSet_distinct [of "[]" es] by (simp add: newMap_def)

lemma set_foldl_mapSet:
  "set (foldl (\<lambda>m (k, v). mapSet k v m) m es) \<subseteq> set m \<union> set es"
proof (induction es arbitrary: m)
  case Nil
  then show ?case by simp
next
  case (Cons e es)
  obtain k v where e: "e = (k, v)" by (cases e)
  from Cons.IH [of "mapSet k v m"] set_mapSet [of k v m] e show ?case by auto
qed

lemma set_newMap: "set (newMap es) \<subseteq> set es"
  using set_foldl_mapSet [of "[]" es] by (simp add: newMap_def)

lemma countSections_returns:
  "entriesToJson h es = Some docs \<Longrightarrow> \<exists>s. countSections h es acc = Inr s"
proof (induction es arbitrary: docs acc)
  case Nil
  then show ?case by simp
next
  case (Cons e es)
  obtain i a where e: "e = (i, a)" by (cases e)
  from Cons.prems e obtain j ds where j: "docAt h a = Some j" and ds: "entriesToJson h es = Some ds"
    by (auto split: option.splits)
  from j obtain d where "lookup h a = Some (DocObj d)"
    by (auto simp: docAt_def split: option.splits obj.splits)
  then have "sectionOfEntry h a = Inr (docSection d)" by (simp add: sectionOfEntry_def)
  with Cons.IH [OF ds] e show ?case by simp
qed

lemma saveIndexToCache_written:
  assumes "entriesToJson (heap srv) (documentationIndex srv) = Some docs" and "indexWritable c"
  shows "indexFile (saveIndexToCache env now srv c)
           = Some (Snapshot \<lparr> snapVersion = ''4.0'', snapOdooVersion = version srv,
                               snapSource = ''GitHub'', snapLastUpdate = lastUpdate srv,
                               snapTotalDocuments = length (documentationIndex srv),
                               snapDocuments = docs \<rparr>)"
proof -
  from countSections_returns [OF assms(1), of "[]"] obtain s where
    "countSections (heap srv) (documentationIndex srv) [] = Inr s" by blast
  then obtain st where "getStats srv = Inr st" by (simp add: getStats_def)
  with assms show ?thesis by (simp add: saveIndexToCache_def Let_def)
qed

section \<open>Loading a snapshot; enrichment\<close>

lemma loadIndexFromCache_snapshot:
  assumes "indexFile c = Some (Snapshot snap)" and "snapVersion snap = ''4.0''" and "snapSource snap = ''GitHub''"
    and "allocEntries (heap other) (snapDocuments snap) = (es, h)"
  shows "loadIndexFromCache other c
           = other\<lparr> lastUpdate := snapLastUpdate snap, heap := h, documentationIndex := newMap es \<rparr>"
  using assms by (simp add: loadIndexFromCache_def)

lemma example_serialised:
  "entriesToJson (heap exampleService) (documentationIndex exampleService) = Some [(''general_import'', exampleJson)]"
  by (simp add: example_store docAt_def docToJson_def arrayAt_def metaAt_def metaToJson_def lookup_def
      exampleDoc_def exampleJson_def withReferences_def)

lemma syntheticDocument_result:
  assumes "syntheticDocument now h f = ((a, d), h')"
  shows "(\<exists>new. h' = h @ new) \<and> recordAccepted h' a \<and> docId d = faqId f"
  using assms
  by (auto simp: syntheticDocument_def alloc_def Let_def recordAccepted_def isSynthetic_def lookup_def nth_append)

lemma generateSyntheticDocuments_result:
  "generateSyntheticDocuments now h fs = (xs, h')
     \<Longrightarrow> (\<exists>new. h' = h @ new) \<and> list_all (\<lambda>(a, d). recordAccepted h' a) xs
         \<and> map (\<lambda>(a, d). docId d) xs = map faqId fs"
proof (induction fs arbitrary: h xs h')
  case Nil
  then show ?case by simp
next
  case (Cons f fs)
  obtain a d h1 where s: "syntheticDocument now h f = ((a, d), h1)"
    by (cases "syntheticDocument now h f") auto
  obtain ys h2 where g: "generateSyntheticDocuments now h1 fs = (ys, h2)"
    by (cases "generateSyntheticDocuments now h1 fs")
  from Cons.prems s g have xs: "xs = (a, d) # ys" and h': "h' = h2" by (auto simp: Let_def)
  from syntheticDocument_result [OF s] obtain n1 where h1: "h1 = h @ n1"
    and acc: "recordAccepted h1 a" and i: "docId d = faqId f" by auto
  from Cons.IH [OF g] obtain n2 where h2: "h2 = h1 @ n2"
    and ys: "list_all (\<lambda>(a, d). recordAccepted h2 a) ys" "map (\<lambda>(a, d). docId d) ys = map faqId fs" by auto
  from acc have "recordAccepted h2 a" unfolding h2 by (rule recordAccepted_grow)
  with ys xs h' h1 h2 i show ?case by simp
qed

lemma foldl_mapSet_docs:
  "set (foldl (\<lambda>m (a, d). mapSet (docId d) a m) m xs) \<subseteq> set m \<union> (\<lambda>(a, d). (docId d, a)) ` set xs"
proof (induction xs arbitrary: m)
  case Nil
  then show ?case by simp
next
  case (Cons x xs)
  obtain a d where x: "x = (a, d)" by (cases x)
  from Cons.IH [of "mapSet (docId d) a m"] set_mapSet [of "docId d" a m] x show ?case by auto
qed

lemma map_fst_mapSet:
  "map fst (mapSet k v m) = (if k \<in> fst ` set m then map fst m else map fst m @ [k])"
proof (induction m)
  case Nil
  then show ?case by simp
next
  case (Cons e m)
  obtain k' v' where e: "e = (k', v')" by (cases e)
  show ?case
  proof (cases "k' = k")
    case True
    with e show ?thesis by simp
  next
    case False
    with e have "(k \<in> fst ` set (e # m)) = (k \<in> fst ` set m)" by auto
    with Cons.IH e False show ?thesis by (simp del: image_insert)
  qed
qed

lemma keys_mapSet: "fst ` set (mapSet k v m) = insert k (fst ` set m)"
proof -
  have "fst ` set (mapSet k v m) = set (map fst (mapSet k v m))" by simp
  also have "\<dots> = insert k (fst ` set m)" unfolding map_fst_mapSet by auto
  finally show ?thesis .
qed

lemma foldl_mapSet_keys:
  "fst ` set (foldl (\<lambda>m (a, d). mapSet (docId d) a m) m xs) = fst ` set m \<union> (\<lambda>(a, d). docId d) ` set xs"
proof (induction xs arbitrary: m)
  case Nil
  then show ?case by simp
next
  case (Cons x xs)
  obtain a d where x: "x = (a, d)" by (cases x)
  from Cons.IH [of "mapSet (docId d) a m"] x show ?case by (auto simp: keys_mapSet)
qed

lemma enrichDocumentationSources_invariant:
  assumes "indexInvariant srv"
  shows "indexInvariant (enrichDocumentationSources now fs srv)
       \<and> faqId ` set fs \<subseteq> fst ` set (documentationIndex (enrichDocumentationSources now fs srv))"
proof -
  obtain xs h where g: "generateSyntheticDocuments now (heap srv) fs = (xs, h)"
    by (cases "generateSyntheticDocuments now (heap srv) fs")
  from generateSyntheticDocuments_result [OF g] obtain new where h: "h = heap srv @ new"
    and acc: "list_all (\<lambda>(a, d). recordAccepted h a) xs"
    and ids: "map (\<lambda>(a, d). docId d) xs = map faqId fs" by auto
  let ?idx = "foldl (\<lambda>m (a, d). mapSet (docId d) a m) (documentationIndex srv) xs"
  have e: "enrichDocumentationSources now fs srv = srv\<lparr> heap := h, documentationIndex := ?idx \<rparr>"
    using g by (simp add: enrichDocumentationSources_def)
  have "recordAccepted h b" if "(i, b) \<in> set ?idx" for i b
  proof -
    from that foldl_mapSet_docs [of "documentationIndex srv" xs]
    have "(i, b) \<in> set (documentationIndex srv) \<or> (\<exists>d. (b, d) \<in> set xs)" by auto
    then show ?thesis
    proof
      assume "(i, b) \<in> set (documentationIndex srv)"
      with assms have "recordAccepted (heap srv) b" by (auto simp: indexInvariant_def list_all_iff)
      then show ?thesis unfolding h by (rule recordAccepted_grow)
    next
      assume "\<exists>d. (b, d) \<in> set xs"
      with acc show ?thesis by (auto simp: list_all_iff)
    qed
  qed
  then have inv: "indexInvariant (enrichDocumentationSources now fs srv)"
    unfolding e by (auto simp: indexInvariant_def list_all_iff)
  have "faqId ` set fs = (\<lambda>(a, d). docId d) ` set xs"
    using ids by (metis set_map)
  then have "faqId ` set fs \<subseteq> fst ` set ?idx"
    by (simp add: foldl_mapSet_keys)
  with inv e show ?thesis by simp
qed

lemma docAt_accepted: "docAt h a = Some j \<Longrightarrow> recordAccepted h a = jsonAccepted j"
  by (auto simp: docAt_def docToJson_def metaAt_def metaToJson_def recordAccepted_def jsonAccepted_def
      isSynthetic_def split: option.splits obj.splits meta.splits)

lemma load_saved_invariant:
  assumes inv: "indexInvariant srv"
    and ser: "entriesToJson (heap srv) (documentationIndex srv) = Some docs"
    and wr: "indexWritable c"
  shows "indexInvariant (loadIndexFromCache other (saveIndexToCache env now srv c))"
proof -
  let ?snap = "\<lparr> snapVersion = ''4.0'', snapOdooVersion = version srv,
                  snapSource = ''GitHub'', snapLastUpdate = lastUpdate srv,
                  snapTotalDocuments = length (documentationIndex srv),
                  snapDocuments = docs \<rparr>"
  have written: "indexFile (saveIndexToCache env now srv c) = Some (Snapshot ?snap)"
    by (rule saveIndexToCache_written [OF ser wr])
  obtain es h where ae: "allocEntries (heap other) docs = (es, h)"
    by (cases "allocEntries (heap other) docs")
  from allocEntries_result [OF ae] have ej: "entriesToJson h es = Some docs" by blast
  have l: "loadIndexFromCache other (saveIndexToCache env now srv c)
             = other\<lparr> lastUpdate := lastUpdate srv, heap := h, documentationIndex := newMap es \<rparr>"
    using loadIndexFromCache_snapshot [OF written, of other es h] ae by simp
  have "recordAccepted h b" if "(i, b) \<in> set (newMap es)" for i b
  proof -
    from that set_newMap [of es] have "(i, b) \<in> set es" by auto
    from entriesToJson_member [OF ej this] obtain j where j: "docAt h b = Some j" "(i, j) \<in> set docs"
      by blast
    from entriesToJson_source [OF ser j(2)] obtain a where
      a: "docAt (heap srv) a = Some j" "(i, a) \<in> set (documentationIndex srv)" by blast
    from inv a(2) have "recordAccepted (heap srv) a" by (auto simp: indexInvariant_def list_all_iff)
    with docAt_accepted [OF a(1)] have "jsonAccepted j" by simp
    with docAt_accepted [OF j(1)] show ?thesis by simp
  qed
  then show ?thesis unfolding l by (auto simp: indexInvariant_def list_all_iff)
qed

lemma processRstFile_short:
  assumes "readFile env (githubDocPath env @ ''/'' @ f) = Some text"
    and "length (if toLowerCase (extname (githubDocPath env @ ''/'' @ f)) = ''.md''
                 then cleanMarkdownContent env text else cleanRstContent env text) < 100"
  shows "processRstFile env now srv f = Inr (None, srv)"
  using assms by (simp add: processRstFile_def processRstFileBody_def Let_def split: if_splits)

lemma example_invariant: "indexInvariant exampleService"
  by (simp add: indexInvariant_def example_store recordAccepted_def lookup_def exampleDoc_def exampleContent_def)

section \<open>When the search and the statistics return\<close>

text \<open>
  The search returns for every query whose terms are patterns of literal characters, and
  the statistics for every index, when the entries of the index lead to document records.
\<close>

lemma termScores_returns:
  "list_all literalPattern ts \<Longrightarrow> \<exists>x. termScores E d ctx ts = Inr x"
proof (induction ts)
  case Nil
  then show ?case by simp
next
  case (Cons t ts)
  then obtain x where "termScores E d ctx ts = Inr x" by auto
  moreover from Cons.prems have "\<exists>y. termScore E d ctx t = Inr y"
    by (simp add: termScore_def regexpMatchCount_def)
  ultimately show ?case by auto
qed

lemma calculateAdaptiveScore_returns:
  "list_all literalPattern ts \<Longrightarrow> \<exists>s. calculateAdaptiveScore E now d ts q qt ctx = Inr s"
  using termScores_returns [of ts E d ctx] by (auto simp: calculateAdaptiveScore_def Let_def)

lemma searchLoop_returns:
  assumes "list_all literalPattern ts"
  shows "list_all (\<lambda>(i, a). \<exists>d. lookup h a = Some (DocObj d)) idx
           \<Longrightarrow> \<exists>found' h'. searchLoop E now opts ts q qt idx h found = (Inr found', h')"
proof (induction idx arbitrary: h found)
  case Nil
  then show ?case by simp
next
  case (Cons e idx)
  obtain i a where e: "e = (i, a)" by (cases e)
  from Cons.prems e obtain d where d: "lookup h a = Some (DocObj d)" by auto
  from Cons.prems have rest: "list_all (\<lambda>(i, a). \<exists>d. lookup h a = Some (DocObj d)) idx" by simp
  have rest': "list_all (\<lambda>(i, a). \<exists>d. lookup (h @ new) a = Some (DocObj d)) idx" for new
    using rest unfolding list_all_iff by (fastforce intro: lookup_grow)
  from calculateAdaptiveScore_returns [OF assms] obtain sc where
    sc: "calculateAdaptiveScore E now d ts q qt (scoringContext d qt opts) = Inr sc" by blast
  show ?case
  proof (cases "sectionExcluded opts (docSection d)")
    case True
    with e d Cons.IH [OF rest] show ?thesis by simp
  next
    case False
    show ?thesis
    proof (cases "sc \<ge> minScoreOf opts")
      case True
      let ?r = "makeResult d sc (extractRelevantExcerpt (content d) ts) opts"
      from Cons.IH [OF rest' [of "[ResultObj ?r]"], of "found @ [(length h, ?r)]"]
      show ?thesis using e d False sc True by (simp add: alloc_def Let_def)
    next
      case F: False
      with e d False sc Cons.IH [OF rest] show ?thesis by simp
    qed
  qed
qed

lemma searchDocumentation_returns:
  assumes "preprocessSearchTerms query = Inr ts" and "list_all literalPattern ts"
    and "list_all (\<lambda>(i, a). \<exists>d. lookup (heap srv) a = Some (DocObj d)) (documentationIndex srv)"
  shows "\<exists>out srv'. searchDocumentation E now srv query opts = (Inr out, srv')"
proof -
  from searchLoop_returns [OF assms(2) assms(3)] obtain found h where
    "searchLoop E now opts ts query (detectQueryType query) (documentationIndex srv) (heap srv) [] = (Inr found, h)"
    by blast
  with assms(1) show ?thesis by (simp add: searchDocumentation_def Let_def)
qed

lemma countSections_docs:
  "list_all (\<lambda>(i, a). \<exists>d. lookup h a = Some (DocObj d)) idx \<Longrightarrow> \<exists>s. countSections h idx acc = Inr s"
proof (induction idx arbitrary: acc)
  case Nil
  then show ?case by simp
next
  case (Cons e idx)
  obtain i a where e: "e = (i, a)" by (cases e)
  from Cons.prems e obtain d where "lookup h a = Some (DocObj d)" by auto
  then have "sectionOfEntry h a = Inr (docSection d)" by (simp add: sectionOfEntry_def)
  with Cons e show ?case by simp
qed

lemma getStats_returns:
  assumes "list_all (\<lambda>(i, a). \<exists>d. lookup (heap srv) a = Some (DocObj d)) (documentationIndex srv)"
  shows "\<exists>st. getStats srv = Inr st \<and> statTotalDocuments st = length (documentationIndex srv)"
proof -
  from countSections_docs [OF assms, of "[]"] obtain s where
    "countSections (heap srv) (documentationIndex srv) [] = Inr s" by blast
  then show ?thesis by (simp add: getStats_def)
qed

section \<open>The specified properties\<close>

text \<open>
  Claim C9, as the code has it. For a relative path that ends in a lower-case \<open>.rst\<close> or
  \<open>.md\<close>, the id is a function of the path alone: the path without that extension,
  every slash and backslash replaced by an underscore, lower-cased. When the remaining stem
  does not itself end in a supported extension, the id ends in none.
\<close>

theorem generateDocumentId_lower_case_extension:
  assumes "ext = ''.rst'' \<or> ext = ''.md''"
  shows "generateDocumentId (stem @ ext) = toLowerCase (replaceSeparators stem)
         \<and> (\<not> isRstFile stem \<longrightarrow> \<not> isRstFile (generateDocumentId (stem @ ext)))"
proof -
  have "replaceSeparators ext = ext"
    using assms by (auto simp: replaceSeparators_def)
  then have "stripExtension (replaceSeparators (stem @ ext)) = replaceSeparators stem"
    using assms by (auto simp: replaceSeparators_append stripExtension_rst stripExtension_md)
  then have eq: "generateDocumentId (stem @ ext) = toLowerCase (replaceSeparators stem)"
    by (simp add: generateDocumentId_def)
  with isRstFile_id_stem show ?thesis by auto
qed

text \<open>The statement at the path \<open>applications/Sales.md\<close>.\<close>

theorem generateDocumentId_lower_case_extension_witness:
  "(''.md'' = ''.rst'' \<or> ''.md'' = ''.md'')
   \<and> generateDocumentId (''applications/Sales'' @ ''.md'')
       = toLowerCase (replaceSeparators ''applications/Sales'')
   \<and> toLowerCase (replaceSeparators ''applications/Sales'') = ''applications_sales''
   \<and> \<not> isRstFile ''applications/Sales''
   \<and> \<not> isRstFile (generateDocumentId (''applications/Sales'' @ ''.md''))"
proof -
  have h: "''.md'' = ''.rst'' \<or> ''.md'' = ''.md''" by simp
  have n: "\<not> isRstFile ''applications/Sales''" by code_simp
  have v: "toLowerCase (replaceSeparators ''applications/Sales'') = ''applications_sales''"
    by code_simp
  show ?thesis
    using h n v generateDocumentId_lower_case_extension [OF h, of "''applications/Sales''"]
    by blast
qed

text \<open>
  Only one extension is removed: the scanner accepts the file \<open>howto.rst.md\<close> of the
  directory \<open>developer\<close>, and its id ends in \<open>.rst\<close>. So a supported extension can end the
  id of a scanned file.
\<close>

theorem generateDocumentId_keeps_inner_extension:
  "isRstFile ''howto.rst.md''
   \<and> generateDocumentId ''developer/howto.rst.md'' = ''developer_howto.rst''
   \<and> endsWith (generateDocumentId ''developer/howto.rst.md'') ''.rst''"
  by code_simp

text \<open>
  Claim C8. The classifier returns a non-empty list of tags, and the list is the single tag
  \<open>general\<close> exactly when no keyword of a module pattern, no keyword of an action pattern,
  no word of the technical pattern and no word of the beginner pattern occurs in the
  lower-cased query.
\<close>

theorem detectQueryType_general:
  "detectQueryType query \<noteq> []
   \<and> (detectQueryType query = [''general''] \<longleftrightarrow>
        \<not> list_ex (\<lambda>(tag, keywords). someIncluded (toLowerCase query) keywords) modulePatterns
      \<and> \<not> list_ex (\<lambda>(tag, keywords). someIncluded (toLowerCase query) keywords) actionPatterns
      \<and> \<not> someIncluded (toLowerCase query) technicalWords
      \<and> \<not> someIncluded (toLowerCase query) beginnerWords)"
proof -
  define q where "q = toLowerCase query"
  define types where "types = matchingTags modulePatterns q @ matchingTags actionPatterns q
     @ (if someIncluded q technicalWords then [''technical'']
        else if someIncluded q beginnerWords then [''beginner''] else [])"
  have d: "detectQueryType query = (if types \<noteq> [] then types else [''general''])"
    by (simp add: detectQueryType_def Let_def q_def types_def)
  have "''general'' \<notin> set types"
    using matchingTags_subset [of modulePatterns q] matchingTags_subset [of actionPatterns q]
      general_not_module_tag general_not_action_tag
    by (auto simp: types_def)
  then have ng: "types \<noteq> [''general'']" by auto
  have e: "types = [] \<longleftrightarrow>
      \<not> list_ex (\<lambda>(tag, keywords). someIncluded q keywords) modulePatterns
    \<and> \<not> list_ex (\<lambda>(tag, keywords). someIncluded q keywords) actionPatterns
    \<and> \<not> someIncluded q technicalWords \<and> \<not> someIncluded q beginnerWords"
    by (simp add: types_def matchingTags_empty)
  from d ng e show ?thesis unfolding q_def [symmetric] by auto
qed

text \<open>The query \<open>Bonjour\<close> matches no pattern and is classified \<open>general\<close>.\<close>

theorem detectQueryType_general_witness:
  "\<not> list_ex (\<lambda>(tag, keywords). someIncluded (toLowerCase ''Bonjour'') keywords) modulePatterns
   \<and> \<not> list_ex (\<lambda>(tag, keywords). someIncluded (toLowerCase ''Bonjour'') keywords) actionPatterns
   \<and> \<not> someIncluded (toLowerCase ''Bonjour'') technicalWords
   \<and> \<not> someIncluded (toLowerCase ''Bonjour'') beginnerWords
   \<and> detectQueryType ''Bonjour'' = [''general'']"
proof -
  have a: "\<not> list_ex (\<lambda>(tag, keywords). someIncluded (toLowerCase ''Bonjour'') keywords) modulePatterns
      \<and> \<not> list_ex (\<lambda>(tag, keywords). someIncluded (toLowerCase ''Bonjour'') keywords) actionPatterns
      \<and> \<not> someIncluded (toLowerCase ''Bonjour'') technicalWords
      \<and> \<not> someIncluded (toLowerCase ''Bonjour'') beginnerWords"
    by code_simp
  show ?thesis
    using a detectQueryType_general [of "''Bonjour''"] by blast
qed

lemma tableEntries_lower: "list_all (\<lambda>v. toLowerCase v = v) (concat (map snd (synonyms @ technicalVariants)))"
  by code_simp

text \<open>
  Claim C7, as the code has it. When no token of the lower-cased query that is longer than
  two characters names an inherited object property, \<open>preprocessSearchTerms\<close> returns
  a duplicate-free list of lower-cased terms that contains every white-space separated token
  of the lower-cased query longer than two characters; every returned term is such a token
  or an entry of the synonym or technical-variant table. The length filter is applied to
  the tokens only, before the expansion.
\<close>

theorem preprocessSearchTerms_terms:
  assumes "\<forall>t\<in>set (baseTerms query). \<not> inheritedProperty t"
  shows "\<exists>terms. preprocessSearchTerms query = Inr terms
           \<and> distinct terms
           \<and> (\<forall>t\<in>set terms. toLowerCase t = t)
           \<and> (\<forall>t\<in>set (splitRuns isSpace (toLowerCase query)). length t > 2 \<longrightarrow> t \<in> set terms)
           \<and> (\<forall>t\<in>set terms. (t \<in> set (splitRuns isSpace (toLowerCase query)) \<and> length t > 2)
                                  \<or> t \<in> set (concat (map snd (synonyms @ technicalVariants))))"
proof -
  from assms obtain syn where syn: "expandTerms synonyms (baseTerms query) = Inr syn"
    using expandTerms_returns by blast
  from assms obtain tech where tech: "expandTerms technicalVariants (baseTerms query) = Inr tech"
    using expandTerms_returns by blast
  let ?terms = "uniq (baseTerms query @ syn @ tech)"
  have r: "preprocessSearchTerms query = Inr ?terms"
    by (simp add: preprocessSearchTerms_def Let_def syn tech)
  have tab: "set syn \<union> set tech \<subseteq> set (concat (map snd (synonyms @ technicalVariants)))"
    using expandTerms_values [OF syn] expandTerms_values [OF tech] by auto
  have low: "\<forall>t\<in>set ?terms. toLowerCase t = t"
    using tab tableEntries_lower baseTerms_lower by (auto simp: list_all_iff)
  have base: "set (baseTerms query) = {t \<in> set (splitRuns isSpace (toLowerCase query)). length t > 2}"
    by (auto simp: baseTerms_def)
  have d: "distinct ?terms" by simp
  have all: "\<forall>t\<in>set (splitRuns isSpace (toLowerCase query)). length t > 2 \<longrightarrow> t \<in> set ?terms"
    using base by auto
  have src: "\<forall>t\<in>set ?terms. (t \<in> set (splitRuns isSpace (toLowerCase query)) \<and> length t > 2)
                                  \<or> t \<in> set (concat (map snd (synonyms @ technicalVariants)))"
  proof
    fix t assume "t \<in> set ?terms"
    then have "t \<in> set (baseTerms query) \<or> t \<in> set syn \<union> set tech" by auto
    with base tab show "(t \<in> set (splitRuns isSpace (toLowerCase query)) \<and> length t > 2)
                                  \<or> t \<in> set (concat (map snd (synonyms @ technicalVariants)))"
      by blast
  qed
  from r d low all src show ?thesis by blast
qed

text \<open>The statement at the query \<open>Module  Python\<close>.\<close>

theorem preprocessSearchTerms_terms_witness:
  "list_all (\<lambda>t. \<not> inheritedProperty t) (baseTerms ''Module  Python'')
   \<and> preprocessSearchTerms ''Module  Python''
       = Inr [''module'', ''python'', ''addon'', ''app'', ''application'', ''extension'', ''py'', ''script'', ''code'']
   \<and> (\<exists>terms. preprocessSearchTerms ''Module  Python'' = Inr terms \<and> distinct terms
        \<and> (\<forall>t\<in>set terms. toLowerCase t = t)
        \<and> (\<forall>t\<in>set (splitRuns isSpace (toLowerCase ''Module  Python'')). length t > 2 \<longrightarrow> t \<in> set terms)
        \<and> (\<forall>t\<in>set terms. (t \<in> set (splitRuns isSpace (toLowerCase ''Module  Python'')) \<and> length t > 2)
                                  \<or> t \<in> set (concat (map snd (synonyms @ technicalVariants)))))"
proof -
  have l: "list_all (\<lambda>t. \<not> inheritedProperty t) (baseTerms ''Module  Python'')" by code_simp
  then have h: "\<forall>t\<in>set (baseTerms ''Module  Python''). \<not> inheritedProperty t"
    by (simp add: list_all_iff)
  have v: "preprocessSearchTerms ''Module  Python''
       = Inr [''module'', ''python'', ''addon'', ''app'', ''application'', ''extension'', ''py'', ''script'', ''code'']"
    by code_simp
  from preprocessSearchTerms_terms [OF h] have e: "\<exists>terms. preprocessSearchTerms ''Module  Python'' = Inr terms \<and> distinct terms
        \<and> (\<forall>t\<in>set terms. toLowerCase t = t)
        \<and> (\<forall>t\<in>set (splitRuns isSpace (toLowerCase ''Module  Python'')). length t > 2 \<longrightarrow> t \<in> set terms)
        \<and> (\<forall>t\<in>set terms. (t \<in> set (splitRuns isSpace (toLowerCase ''Module  Python'')) \<and> length t > 2)
                                  \<or> t \<in> set (concat (map snd (synonyms @ technicalVariants))))" .
  from l v e show ?thesis by (intro conjI)
qed

text \<open>
  The expansion of \<open>python\<close> adds the table entry \<open>py\<close>, which has two characters: not
  every returned term is longer than two characters.
\<close>

theorem preprocessSearchTerms_short_term:
  "preprocessSearchTerms ''python'' = Inr [''python'', ''py'', ''script'', ''code'']
   \<and> ''py'' \<in> set [''python'', ''py'', ''script'', ''code''] \<and> \<not> length ''py'' > 2"
  by code_simp

text \<open>
  Claim C2. When the search returns, every address of the returned list holds a result
  object that is the copy of a record of the index (\<open>doc.truncate\<close> gives the properties
  copied from the record); its score is the adaptive score computed for that record and
  the query, and that score is greater than 10 and not below \<open>minScore\<close>, whatever the
  options are. A record of the index whose computed score is at most 10 has no copy in the
  returned list.
\<close>

theorem search_quality_floor:
  assumes "searchDocumentation E now srv query opts = (Inr out, srv')"
  shows "(\<forall>a\<in>set (results out). \<exists>r i da d.
            lookup (heap srv') a = Some (ResultObj r) \<and> score r > 10 \<and> score r \<ge> minScoreOf opts
          \<and> (i, da) \<in> set (documentationIndex srv) \<and> lookup (heap srv) da = Some (DocObj d)
          \<and> doc.truncate r = d
          \<and> documentScore E now d query opts = Inr (score r))
       \<and> (\<forall>(i, da)\<in>set (documentationIndex srv). \<forall>d sc.
            lookup (heap srv) da = Some (DocObj d) \<and> documentScore E now d query opts = Inr sc \<and> sc \<le> 10
            \<longrightarrow> (\<forall>a\<in>set (results out). \<forall>r. lookup (heap srv') a = Some (ResultObj r)
                    \<longrightarrow> doc.truncate r \<noteq> d))"
proof -
  from searchDocumentation_Inr [OF assms] obtain ts found h where
    ts: "preprocessSearchTerms query = Inr ts"
    and loop: "searchLoop E now opts ts query (detectQueryType query) (documentationIndex srv) (heap srv) [] = (Inr found, h)"
    and s: "srv' = srv\<lparr>heap := h\<rparr>"
    and sub: "set (results out) \<subseteq> fst ` {x \<in> set found. score (snd x) > 10}"
    by blast
  have ra: "resultsAt 0 h found"
    by (rule searchLoop_found [OF loop]) (simp_all add: resultsAt_def)
  have first: "\<exists>r i da d.
            lookup (heap srv') a = Some (ResultObj r) \<and> score r > 10 \<and> score r \<ge> minScoreOf opts
          \<and> (i, da) \<in> set (documentationIndex srv) \<and> lookup (heap srv) da = Some (DocObj d)
          \<and> doc.truncate r = d
          \<and> documentScore E now d query opts = Inr (score r)"
    if a: "a \<in> set (results out)" for a
  proof -
    from a sub obtain r where r: "(a, r) \<in> set found" "score r > 10" by auto
    from ra r(1) have l: "lookup (heap srv') a = Some (ResultObj r)"
      using s by (auto simp: resultsAt_def list_all_iff)
    from searchLoop_scored [OF loop r(1)] obtain i da d where
      d: "(i, da) \<in> set (documentationIndex srv)" "lookup (heap srv) da = Some (DocObj d)"
         "calculateAdaptiveScore E now d ts query (detectQueryType query)
            (scoringContext d (detectQueryType query) opts) = Inr (score r)"
         "doc.truncate r = d" "minScoreOf opts \<le> score r"
      by auto
    from d(3) have "documentScore E now d query opts = Inr (score r)"
      by (simp add: documentScore_def ts)
    with l r(2) d show ?thesis by blast
  qed
  have second: "doc.truncate r \<noteq> d"
    if "lookup (heap srv) da = Some (DocObj d)" "documentScore E now d query opts = Inr sc" "sc \<le> 10"
      "a \<in> set (results out)" "lookup (heap srv') a = Some (ResultObj r)" for da d sc a r
  proof
    assume eq: "doc.truncate r = d"
    from first [OF that(4)] obtain r' where
      "lookup (heap srv') a = Some (ResultObj r')" "score r' > 10"
      "documentScore E now (doc.truncate r') query opts = Inr (score r')"
      by blast
    with that(5) have "score r > 10" "documentScore E now (doc.truncate r) query opts = Inr (score r)"
      by simp_all
    with eq that(2,3) show False by simp
  qed
  from first second show ?thesis by blast
qed

text \<open>
  Claim C10. Whether the search returns or raises, the index maps the same ids to the same
  addresses, the store has only grown, and every object that existed before is unchanged.
  A returned result is a new object: its address lies beyond the old store, so storing any
  value at that address leaves every old object as it was. The keywords array and the
  metadata object of a result are the ones of the stored record (see \<open>makeResult\<close>);
  the statement is about the result object itself.
\<close>

theorem search_frame:
  assumes "searchDocumentation E now srv query opts = (out, srv')"
  shows "documentationIndex srv' = documentationIndex srv
       \<and> (\<exists>new. heap srv' = heap srv @ new)
       \<and> (\<forall>b < length (heap srv). lookup (heap srv') b = lookup (heap srv) b)
       \<and> (\<forall>res. out = Inr res \<longrightarrow>
             (\<forall>a\<in>set (results res). length (heap srv) \<le> a
                \<and> (\<forall>x. \<forall>b < length (heap srv). lookup ((heap srv')[a := x]) b = lookup (heap srv) b)))"
proof -
  have store: "\<exists>new. heap srv' = heap srv @ new \<and> documentationIndex srv' = documentationIndex srv"
    by (rule searchDocumentation_store [OF assms])
  then obtain new where h: "heap srv' = heap srv @ new" by blast
  have old: "\<forall>b < length (heap srv). lookup (heap srv') b = lookup (heap srv) b"
    using h by (simp add: lookup_append_old)
  have fresh: "\<forall>a\<in>set (results res). length (heap srv) \<le> a
                \<and> (\<forall>x. \<forall>b < length (heap srv). lookup ((heap srv')[a := x]) b = lookup (heap srv) b)"
    if ov: "out = Inr res" for res
  proof
    fix a assume a: "a \<in> set (results res)"
    from searchDocumentation_Inr [OF assms [unfolded ov]] obtain ts found h' where
      loop: "searchLoop E now opts ts query (detectQueryType query) (documentationIndex srv) (heap srv) [] = (Inr found, h')"
      and sub: "set (results res) \<subseteq> fst ` {x \<in> set found. score (snd x) > 10}"
      by blast
    have ra: "resultsAt (length (heap srv)) h' found"
      by (rule searchLoop_found [OF loop]) (simp_all add: resultsAt_def)
    from a sub obtain r where "(a, r) \<in> set found" by auto
    with ra have ge: "length (heap srv) \<le> a"
      by (auto simp: resultsAt_def list_all_iff)
    then have "\<forall>x. \<forall>b < length (heap srv). lookup ((heap srv')[a := x]) b = lookup (heap srv) b"
      using h by (auto simp: lookup_def nth_append)
    with ge show "length (heap srv) \<le> a
                \<and> (\<forall>x. \<forall>b < length (heap srv). lookup ((heap srv')[a := x]) b = lookup (heap srv) b)"
      by simp
  qed
  from store old fresh show ?thesis by blast
qed


text \<open>
  The search for \<open>import\<close>, with the default \<open>minScore\<close> of 0, in the service of two
  records. The first record scores 120 and its copy at address 6 is returned. The second
  scores 10: the loop makes a result for it, and the quality floor removes it.
\<close>

theorem search_quality_floor_witness:
  "fst (searchDocumentation exampleEngine 0 twoDocumentService ''import'' defaultOptions)
     = Inr \<lparr> results = [6],
             sourcesSummary = [''Ces informations proviennent de la documentation general''] \<rparr>
   \<and> minScoreOf defaultOptions = 0
   \<and> documentationIndex twoDocumentService = [(''general_import'', 2), (''user_glossary'', 5)]
   \<and> lookup (heap twoDocumentService) 2 = Some (DocObj exampleDoc)
   \<and> lookup (heap twoDocumentService) 5 = Some (DocObj glossaryDoc)
   \<and> documentScore exampleEngine 0 exampleDoc ''import'' defaultOptions = Inr 120
   \<and> documentScore exampleEngine 0 glossaryDoc ''import'' defaultOptions = Inr 10
   \<and> (\<exists>r. lookup (heap (snd (searchDocumentation exampleEngine 0 twoDocumentService ''import'' defaultOptions))) 6
              = Some (ResultObj r)
          \<and> score r = 120 \<and> doc.truncate r = exampleDoc \<and> doc.truncate r \<noteq> glossaryDoc)"
proof -
  let ?srv = "snd (searchDocumentation exampleEngine 0 twoDocumentService ''import'' defaultOptions)"
  have l2: "lookup (heap twoDocumentService) 2 = Some (DocObj exampleDoc)"
    by (simp add: two_store lookup_def)
  have l5: "lookup (heap twoDocumentService) 5 = Some (DocObj glossaryDoc)"
    by (simp add: two_store lookup_def)
  have l6: "lookup (heap ?srv) 6
      = Some (ResultObj (makeResult exampleDoc 120 (extractRelevantExcerpt (content exampleDoc) [''import'']) defaultOptions))"
    by (simp add: two_search two_store lookup_def)
  note floor = search_quality_floor [OF two_search]
  have in5: "(''user_glossary'', 5) \<in> set (documentationIndex twoDocumentService)"
    by (simp add: two_store)
  from floor in5 l5 example_documentScores(2) l6
  have "doc.truncate (makeResult exampleDoc 120 (extractRelevantExcerpt (content exampleDoc) [''import'']) defaultOptions)
          \<noteq> glossaryDoc"
    by (fastforce simp: two_search)
  with l2 l5 l6 show ?thesis
    by (simp add: two_search example_loop_facts two_store(2) example_documentScores makeResult_fields makeResult_truncate)
qed

text \<open>
  After the search for \<open>import\<close> the example index still maps the id to address 2, which
  holds the same record, also after the result object at address 3 is overwritten.
\<close>

theorem search_frame_witness:
  "documentationIndex (snd (searchDocumentation exampleEngine 0 exampleService ''import'' defaultOptions))
     = [(''general_import'', 2)]
   \<and> lookup (heap (snd (searchDocumentation exampleEngine 0 exampleService ''import'' defaultOptions))) 2
     = Some (DocObj exampleDoc)
   \<and> lookup ((heap (snd (searchDocumentation exampleEngine 0 exampleService ''import'' defaultOptions)))
               [3 := ArrayObj []]) 2
     = Some (DocObj exampleDoc)"
proof -
  have l: "lookup (heap exampleService) 2 = Some (DocObj exampleDoc)"
    by (simp add: example_store lookup_def)
  have n: "(2::nat) < length (heap exampleService)" by (simp add: example_store)
  from search_frame [OF example_search] n l show ?thesis
    by (simp add: example_search example_store(2))
qed

text \<open>
  Claim C1 does not hold of the code. The loop passes every search term to the
  \<open>RegExp\<close> constructor unescaped and nothing in \<open>searchDocumentation\<close> catches an error:
  when the first index entry is a document that the section filter lets through, the query
  \<open>c++\<close> ends in the \<open>SyntaxError\<close> of the constructor. The query \<open>constructor\<close> ends in a
  \<open>TypeError\<close> before the loop, for every index.
\<close>

theorem searchDocumentation_raises:
  assumes "documentationIndex srv = (i, a) # rest" and "lookup (heap srv) a = Some (DocObj d)"
    and "\<not> sectionExcluded opts (docSection d)"
  shows "searchDocumentation E now srv ''c++'' opts = (Inl SyntaxError, srv)
       \<and> searchDocumentation E now srv ''constructor'' opts = (Inl TypeError, srv)"
proof -
  have "regexpMatchCount E ''c++'' subject = Inl SyntaxError" for subject
    unfolding regexpMatchCount_def using cpp_facts(3,4,5) by (simp only: if_True if_False simp_thms)
  then have "calculateAdaptiveScore E now d [''c++''] ''c++'' [''general''] (scoringContext d [''general''] opts)
          = Inl SyntaxError"
    by (simp add: calculateAdaptiveScore_def termScore_def)
  with assms show ?thesis
    by (simp add: searchDocumentation_def cpp_facts)
qed

text \<open>
  The two queries on the example service.
\<close>

theorem searchDocumentation_raises_witness:
  "documentationIndex exampleService = (''general_import'', 2) # []
   \<and> lookup (heap exampleService) 2 = Some (DocObj exampleDoc)
   \<and> \<not> sectionExcluded defaultOptions (docSection exampleDoc)
   \<and> searchDocumentation exampleEngine 0 exampleService ''c++'' defaultOptions = (Inl SyntaxError, exampleService)
   \<and> searchDocumentation exampleEngine 0 exampleService ''constructor'' defaultOptions = (Inl TypeError, exampleService)"
proof -
  have a: "documentationIndex exampleService = (''general_import'', 2) # []" by (simp add: example_store)
  have b: "lookup (heap exampleService) 2 = Some (DocObj exampleDoc)" by (simp add: example_store lookup_def)
  have c: "\<not> sectionExcluded defaultOptions (docSection exampleDoc)" by (rule example_loop_facts)
  from a b c searchDocumentation_raises [OF a b c] show ?thesis by (intro conjI) simp_all
qed




text \<open>
  Claim C4 does not hold of the code in one point. A file that cannot be read is caught
  inside \<open>processRstFile\<close>: the function warns, returns no document, and the loop goes on
  with the next file. But the \<open>catch\<close> of the loop, the only place that increments
  \<open>failedFiles\<close>, is never reached, so the counter is the same after the run.
\<close>

theorem unreadable_file_not_counted:
  assumes "readFile env (githubDocPath env @ ''/'' @ file) = None"
  shows "processRstFile env now srv file
           = Inr (None, srv\<lparr> warnings := warnings srv @ [githubDocPath env @ ''/'' @ file] \<rparr>)
       \<and> indexLoop env now (file # files) n srv c
           = indexLoop env now files n (srv\<lparr> warnings := warnings srv @ [githubDocPath env @ ''/'' @ file] \<rparr>) c
       \<and> failedFiles (serviceMetrics (fst (indexGitHubDocumentation env now (file # files) srv c)))
           = failedFiles (serviceMetrics srv)"
proof -
  from assms have p: "processRstFile env now srv file
           = Inr (None, srv\<lparr> warnings := warnings srv @ [githubDocPath env @ ''/'' @ file] \<rparr>)"
    by (simp add: processRstFile_def processRstFileBody_def Let_def)
  then have l: "indexLoop env now (file # files) n srv c
           = indexLoop env now files n (srv\<lparr> warnings := warnings srv @ [githubDocPath env @ ''/'' @ file] \<rparr>) c"
    by simp
  obtain s1 c1 where i: "indexLoop env now (file # files) 0 srv c = (s1, c1)"
    by (cases "indexLoop env now (file # files) 0 srv c")
  from indexLoop_failedFiles [of env now "file # files" 0 srv c] i
  have "failedFiles (serviceMetrics s1) = failedFiles (serviceMetrics srv)" by simp
  with i have "failedFiles (serviceMetrics (fst (indexGitHubDocumentation env now (file # files) srv c)))
           = failedFiles (serviceMetrics srv)"
    by (simp add: indexGitHubDocumentation_def Let_def del: indexLoop.simps)
  with p l show ?thesis by (intro conjI)
qed

text \<open>A run over a missing file and the example file leaves the counter at 0.\<close>

theorem unreadable_file_not_counted_witness:
  "readFile exampleEnvironment (githubDocPath exampleEnvironment @ ''/'' @ ''general/missing.rst'') = None
   \<and> failedFiles (serviceMetrics (fst (indexGitHubDocumentation exampleEnvironment 0
         [''general/missing.rst'', ''general/import.rst''] (newService ''17.0'' 0) emptyCache))) = 0
   \<and> failedFiles (serviceMetrics (newService ''17.0'' 0)) = 0"
proof -
  have h: "readFile exampleEnvironment (githubDocPath exampleEnvironment @ ''/'' @ ''general/missing.rst'') = None"
    by (simp add: exampleEnvironment_def)
  have z: "failedFiles (serviceMetrics (newService ''17.0'' 0)) = 0" by (simp add: newService_def)
  from unreadable_file_not_counted [OF h, of 0 "newService ''17.0'' 0" "[''general/import.rst'']" 0 emptyCache] h z
  show ?thesis by simp
qed

text \<open>
  Claim C6. Let the index be serialisable (every entry leads to a record whose keywords and
  metadata references hold objects of these kinds), its keys distinct as those of a \<open>Map\<close>
  are, and let the write of the index file succeed. Then \<open>saveIndexToCache\<close> followed by
  \<open>loadIndexFromCache\<close> in a new instance gives an index with the same number of
  documents and the same ids in the same order, and the records, read with their keywords
  and metadata, are the ones that were saved; the version and source tags written by the
  save are the ones the load expects. The time of the last update is restored as saved.
\<close>

theorem save_load_round_trip:
  assumes ser: "entriesToJson (heap srv) (documentationIndex srv) = Some docs"
    and dist: "distinct (map fst (documentationIndex srv))"
    and wr: "indexWritable c"
  shows "length (documentationIndex (loadIndexFromCache (newService v t) (saveIndexToCache env now srv c)))
           = length (documentationIndex srv)
       \<and> map fst (documentationIndex (loadIndexFromCache (newService v t) (saveIndexToCache env now srv c)))
           = map fst (documentationIndex srv)
       \<and> entriesToJson (heap (loadIndexFromCache (newService v t) (saveIndexToCache env now srv c)))
            (documentationIndex (loadIndexFromCache (newService v t) (saveIndexToCache env now srv c)))
           = Some docs
       \<and> lastUpdate (loadIndexFromCache (newService v t) (saveIndexToCache env now srv c)) = lastUpdate srv"
proof -
  let ?snap = "\<lparr> snapVersion = ''4.0'', snapOdooVersion = version srv,
                  snapSource = ''GitHub'', snapLastUpdate = lastUpdate srv,
                  snapTotalDocuments = length (documentationIndex srv),
                  snapDocuments = docs \<rparr>"
  let ?loaded = "loadIndexFromCache (newService v t) (saveIndexToCache env now srv c)"
  have written: "indexFile (saveIndexToCache env now srv c) = Some (Snapshot ?snap)"
    by (rule saveIndexToCache_written [OF ser wr])
  obtain es h where ae: "allocEntries (heap (newService v t)) docs = (es, h)"
    by (cases "allocEntries (heap (newService v t)) docs")
  from allocEntries_result [OF ae] have ej: "entriesToJson h es = Some docs" by blast
  have keys: "map fst es = map fst (documentationIndex srv)"
    using entriesToJson_keys [OF ej] entriesToJson_keys [OF ser] by simp
  with dist have nm: "newMap es = es" by (simp add: newMap_distinct)
  have l: "?loaded = (newService v t)\<lparr> lastUpdate := lastUpdate srv, heap := h, documentationIndex := es \<rparr>"
    using loadIndexFromCache_snapshot [OF written, of "newService v t" es h] ae nm by simp
  have len: "length es = length (documentationIndex srv)"
    using keys by (metis length_map)
  from l ej keys len show ?thesis by simp
qed

text \<open>The round trip of the example service.\<close>

theorem save_load_round_trip_witness:
  "entriesToJson (heap exampleService) (documentationIndex exampleService) = Some [(''general_import'', exampleJson)]
   \<and> distinct (map fst (documentationIndex exampleService))
   \<and> indexWritable emptyCache
   \<and> map fst (documentationIndex (loadIndexFromCache (newService ''17.0'' 1)
                 (saveIndexToCache exampleEnvironment 0 exampleService emptyCache))) = [''general_import'']
   \<and> entriesToJson (heap (loadIndexFromCache (newService ''17.0'' 1)
                 (saveIndexToCache exampleEnvironment 0 exampleService emptyCache)))
        (documentationIndex (loadIndexFromCache (newService ''17.0'' 1)
                 (saveIndexToCache exampleEnvironment 0 exampleService emptyCache)))
       = Some [(''general_import'', exampleJson)]"
proof -
  have d: "distinct (map fst (documentationIndex exampleService))" by (simp add: example_store)
  have w: "indexWritable emptyCache" by (simp add: emptyCache_def)
  from save_load_round_trip [OF example_serialised d w, of "''17.0''" 1 exampleEnvironment 0]
    example_serialised d w
  show ?thesis by (simp add: example_store)
qed

text \<open>
  Claim C5. The invariant: every record of the index is synthetic or has a content of at
  least 100 characters. It is kept by an indexing run over any files, by the enrichment
  (whose documents enter the index whatever the length of their content, under their
  ids), and by loading, into any instance, the snapshot that a successful save of the
  service has written. The parser returns no document for a readable file whose cleaned
  content has fewer than 100 characters.
\<close>

theorem index_invariant_preserved:
  assumes "indexInvariant srv"
  shows "indexInvariant (fst (indexGitHubDocumentation env now files srv c))
       \<and> indexInvariant (enrichDocumentationSources now fs srv)
       \<and> faqId ` set fs \<subseteq> fst ` set (documentationIndex (enrichDocumentationSources now fs srv))
       \<and> (indexWritable c \<longrightarrow> entriesToJson (heap srv) (documentationIndex srv) \<noteq> None
            \<longrightarrow> indexInvariant (loadIndexFromCache other (saveIndexToCache env now srv c)))
       \<and> (\<forall>text. readFile env (githubDocPath env @ ''/'' @ f) = Some text
            \<longrightarrow> length (if toLowerCase (extname (githubDocPath env @ ''/'' @ f)) = ''.md''
                       then cleanMarkdownContent env text else cleanRstContent env text) < 100
            \<longrightarrow> processRstFile env now srv f = Inr (None, srv))"
proof -
  have a: "indexInvariant (fst (indexGitHubDocumentation env now files srv c))"
    using assms by (rule indexGitHubDocumentation_invariant)
  have b: "indexInvariant (enrichDocumentationSources now fs srv)
       \<and> faqId ` set fs \<subseteq> fst ` set (documentationIndex (enrichDocumentationSources now fs srv))"
    using assms by (rule enrichDocumentationSources_invariant)
  have l: "indexWritable c \<longrightarrow> entriesToJson (heap srv) (documentationIndex srv) \<noteq> None
            \<longrightarrow> indexInvariant (loadIndexFromCache other (saveIndexToCache env now srv c))"
    using load_saved_invariant [OF assms] by auto
  have p: "\<forall>text. readFile env (githubDocPath env @ ''/'' @ f) = Some text
            \<longrightarrow> length (if toLowerCase (extname (githubDocPath env @ ''/'' @ f)) = ''.md''
                       then cleanMarkdownContent env text else cleanRstContent env text) < 100
            \<longrightarrow> processRstFile env now srv f = Inr (None, srv)"
    using processRstFile_short by blast
  from a b l p show ?thesis by (intro conjI) blast+
qed

text \<open>
  The example service satisfies the invariant, and so do the services after an indexing
  run, after an enrichment with three documents of empty content, and after a save and a
  load; the parser returns no document for the short file.
\<close>

theorem index_invariant_preserved_witness:
  "indexInvariant exampleService
   \<and> indexInvariant (fst (indexGitHubDocumentation exampleEnvironment 0 [''general/import.rst'']
                          exampleService emptyCache))
   \<and> indexInvariant (enrichDocumentationSources 0 (faqData [] [] []) exampleService)
   \<and> ''faq_hr_leave_config'' \<in> fst ` set (documentationIndex
                                  (enrichDocumentationSources 0 (faqData [] [] []) exampleService))
   \<and> indexInvariant (loadIndexFromCache (newService ''17.0'' 1)
                        (saveIndexToCache exampleEnvironment 0 exampleService emptyCache))
   \<and> processRstFile exampleEnvironment 0 exampleService ''general/short.rst'' = Inr (None, exampleService)"
proof -
  note t = index_invariant_preserved [OF example_invariant, where env = exampleEnvironment and now = 0
      and files = "[''general/import.rst'']" and c = emptyCache and fs = "faqData [] [] []"
      and other = "newService ''17.0'' 1" and f = "''general/short.rst''"]
  have w: "indexWritable emptyCache" by (simp add: emptyCache_def)
  have s: "entriesToJson (heap exampleService) (documentationIndex exampleService) \<noteq> None"
    by (simp add: example_serialised)
  have m: "''faq_hr_leave_config'' \<in> faqId ` set (faqData [] [] [])" by (simp add: faqData_def)
  have r: "readFile exampleEnvironment (githubDocPath exampleEnvironment @ ''/'' @ ''general/short.rst'')
             = Some ''Too short.''"
    by (simp add: exampleEnvironment_def)
  have l: "length (if toLowerCase (extname (githubDocPath exampleEnvironment @ ''/'' @ ''general/short.rst'')) = ''.md''
                   then cleanMarkdownContent exampleEnvironment ''Too short.''
                   else cleanRstContent exampleEnvironment ''Too short.'') < 100"
    by (simp add: exampleEnvironment_def)
  from t r l have p: "processRstFile exampleEnvironment 0 exampleService ''general/short.rst''
                        = Inr (None, exampleService)"
    by blast
  from t w s m example_invariant p show ?thesis by blast
qed

end
